theory Spec2Isabelle
  imports Complex_Main "HOL-Library.Product_Lexorder"
begin

section \<open>Values, errors and attribute dictionaries\<close>

text \<open>
  The module \<^verbatim>\<open>get_fit_data.py\<close> works on dynamically typed Python values.  A naive
  \<^verbatim>\<open>datetime\<close> is the tuple of its seven fields, ordered lexicographically (the order
  Python uses for naive datetimes).  A value is \<^verbatim>\<open>None\<close>, the missing sentinel
  \<^verbatim>\<open>numpy.nan\<close>, an integer, a float (idealised as a rational), a datetime, or a
  sequence of values.
\<close>

type_synonym datetime = "int \<times> int \<times> int \<times> int \<times> int \<times> int \<times> int"

datatype pyval =
    PNone
  | PNaN
  | PInt int
  | PFloat rat
  | PTime datetime
  | PList "pyval list"

datatype error =
  AttributeError | KeyError | IndexError | TypeError | ValueError | OverflowError

definition ebind :: "error + 'a \<Rightarrow> ('a \<Rightarrow> error + 'b) \<Rightarrow> error + 'b" where
  "ebind m f = (case m of Inl e \<Rightarrow> Inl e | Inr x \<Rightarrow> f x)"

text \<open>A \<^verbatim>\<open>for\<close> loop whose body may raise: the first exception ends the loop.\<close>

fun efold :: "('a \<Rightarrow> 's \<Rightarrow> error + 's) \<Rightarrow> 'a list \<Rightarrow> 's \<Rightarrow> error + 's" where
  "efold f [] s = Inr s"
| "efold f (x # xs) s = (case f x s of Inl e \<Rightarrow> Inl e | Inr s' \<Rightarrow> efold f xs s')"

text \<open>An object is its \<^verbatim>\<open>__dict__\<close>; a raw record is a dictionary of the same shape.\<close>

type_synonym pydict = "string \<rightharpoonup> pyval"
type_synonym beam = "string \<rightharpoonup> pyval"

definition getattr :: "beam \<Rightarrow> string \<Rightarrow> error + pyval" where
  "getattr b p = (case b p of None \<Rightarrow> Inl AttributeError | Some v \<Rightarrow> Inr v)"

definition getitem :: "pydict \<Rightarrow> string \<Rightarrow> error + pyval" where
  "getitem d p = (case d p of None \<Rightarrow> Inl KeyError | Some v \<Rightarrow> Inr v)"

text \<open>\<^verbatim>\<open>x != 0\<close>: only a numeric zero compares equal to \<^verbatim>\<open>0\<close>.\<close>

fun py_ne_zero :: "pyval \<Rightarrow> bool" where
  "py_ne_zero (PInt i) = (i \<noteq> 0)"
| "py_ne_zero (PFloat r) = (r \<noteq> 0)"
| "py_ne_zero _ = True"

text \<open>\<^verbatim>\<open>x[k]\<close> on a sequence, negative indices counting from the end.\<close>

fun py_index :: "pyval \<Rightarrow> int \<Rightarrow> error + pyval" where
  "py_index (PList xs) k =
     (let n = int (length xs); j = (if k < 0 then n + k else k)
      in if 0 \<le> j \<and> j < n then Inr (xs ! nat j) else Inl IndexError)"
| "py_index _ k = Inl TypeError"

section \<open>Beam\<close>

subsection \<open>\<^verbatim>\<open>Beam.set\<close>\<close>

text \<open>
  One pass of the loop over \<^verbatim>\<open>s_params\<close> (source lines 56--60): a field absent from
  the record becomes \<^verbatim>\<open>None\<close>; a nonzero \<^verbatim>\<open>scan\<close> becomes \<^verbatim>\<open>1\<close>; any other
  field is copied, indexed by \<^verbatim>\<open>k\<close> when \<^verbatim>\<open>k\<close> is given.
\<close>

definition set_scalar :: "pydict \<Rightarrow> int option \<Rightarrow> string \<Rightarrow> beam \<Rightarrow> error + beam" where
  "set_scalar d k p b =
     (case d p of
        None \<Rightarrow> Inr (b(p \<mapsto> PNone))
      | Some x \<Rightarrow>
          if p = ''scan'' \<and> py_ne_zero x then Inr (b(p \<mapsto> PInt 1))
          else (case k of
                  None \<Rightarrow> Inr (b(p \<mapsto> x))
                | Some j \<Rightarrow> ebind (py_index x j) (\<lambda>y. Inr (b(p \<mapsto> y)))))"

text \<open>One pass of the loop over \<^verbatim>\<open>v_params\<close> (source lines 61--63).\<close>

definition set_vector :: "pydict \<Rightarrow> string \<Rightarrow> beam \<Rightarrow> beam" where
  "set_vector d p b = (case d p of None \<Rightarrow> b(p \<mapsto> PList []) | Some x \<Rightarrow> b(p \<mapsto> x))"

definition Beam_set ::
  "pyval \<Rightarrow> pydict \<Rightarrow> string list \<Rightarrow> string list \<Rightarrow> int option \<Rightarrow> error + beam" where
  "Beam_set time d s_params v_params k =
     ebind (efold (set_scalar d k) s_params Map.empty)
       (\<lambda>b. Inr ((fold (set_vector d) v_params b)(''time'' \<mapsto> time)))"

text \<open>The default field lists of \<^verbatim>\<open>Beam.set\<close>.\<close>

definition set_s_params :: "string list" where
  "set_s_params = [''bmnum'', ''noise.sky'', ''tfreq'', ''scan'', ''nrang'']"

definition set_v_params :: "string list" where
  "set_v_params = [''v'', ''w_l'', ''gflg'', ''p_l'', ''slist'', ''v_e'']"

subsection \<open>\<^verbatim>\<open>Beam.gs_estimation\<close>\<close>

text \<open>
  The ground-scatter criteria work on \<^verbatim>\<open>numpy\<close> float arrays.  A float is a rational or
  NaN (\<open>None\<close>); arithmetic is exact and NaN propagates; a comparison with NaN is false.
  The attributes \<^verbatim>\<open>v\<close> and \<open>w_l\<close> are read as one-dimensional numeric arrays, as the
  record reader delivers them; any other attribute value is a \<^verbatim>\<open>TypeError\<close> here.
\<close>

type_synonym npfloat = "rat option"

fun to_float :: "pyval \<Rightarrow> error + npfloat" where
  "to_float (PInt i) = Inr (Some (of_int i))"
| "to_float (PFloat r) = Inr (Some r)"
| "to_float PNaN = Inr None"
| "to_float _ = Inl TypeError"

fun to_floats :: "pyval list \<Rightarrow> error + npfloat list" where
  "to_floats [] = Inr []"
| "to_floats (x # xs) =
     ebind (to_float x) (\<lambda>y. ebind (to_floats xs) (\<lambda>ys. Inr (y # ys)))"

fun as_floats :: "pyval \<Rightarrow> error + npfloat list" where
  "as_floats (PList xs) = to_floats xs"
| "as_floats _ = Inl TypeError"

fun py_len :: "pyval \<Rightarrow> error + nat" where
  "py_len (PList xs) = Inr (length xs)"
| "py_len _ = Inl TypeError"

text \<open>Iterating over a value: only a sequence can be iterated.\<close>

fun py_iter :: "pyval \<Rightarrow> error + pyval list" where
  "py_iter (PList xs) = Inr xs"
| "py_iter _ = Inl TypeError"

definition lift2 :: "(rat \<Rightarrow> rat \<Rightarrow> rat) \<Rightarrow> npfloat \<Rightarrow> npfloat \<Rightarrow> npfloat" where
  "lift2 f x y = (case x of None \<Rightarrow> None | Some a \<Rightarrow> (case y of None \<Rightarrow> None | Some b \<Rightarrow> Some (f a b)))"

definition flt :: "npfloat \<Rightarrow> rat \<Rightarrow> int" where
  "flt x c = (case x of None \<Rightarrow> 0 | Some a \<Rightarrow> if a < c then 1 else 0)"

text \<open>
  An elementwise operation on two one-dimensional arrays, with \<^verbatim>\<open>numpy\<close>'s broadcasting:
  equal lengths pair up, a one-element array is stretched, anything else is a
  \<^verbatim>\<open>ValueError\<close>.
\<close>

definition np_binop ::
  "(npfloat \<Rightarrow> npfloat \<Rightarrow> npfloat) \<Rightarrow> npfloat list \<Rightarrow> npfloat list \<Rightarrow> error + npfloat list" where
  "np_binop f xs ys =
     (if length xs = length ys then Inr (map2 f xs ys)
      else if length xs = 1 then Inr (map (f (hd xs)) ys)
      else if length ys = 1 then Inr (map (\<lambda>x. f x (hd ys)) xs)
      else Inl ValueError)"

definition crit0 :: "npfloat list \<Rightarrow> npfloat list \<Rightarrow> error + int list" where
  "crit0 v w =
     ebind (np_binop (lift2 (+)) (map (map_option abs) v) (map (map_option (\<lambda>x. x / 3)) w))
       (\<lambda>s. Inr (map (\<lambda>x. flt x 30) s))"

definition crit1 :: "npfloat list \<Rightarrow> npfloat list \<Rightarrow> error + int list" where
  "crit1 v w =
     ebind (np_binop (lift2 (+)) (map (map_option abs) v) (map (map_option (\<lambda>x. x * (4 / 10))) w))
       (\<lambda>s. Inr (map (\<lambda>x. flt x 60) s))"

definition crit2 :: "npfloat list \<Rightarrow> npfloat list \<Rightarrow> error + int list" where
  "crit2 v w =
     ebind (np_binop (lift2 (-)) (map (map_option abs) v) (map (map_option (\<lambda>x. (139 / 1000) * x)) w))
       (\<lambda>d. ebind (np_binop (lift2 (+)) d (map (map_option (\<lambda>x. (113 / 100000) * x ^ 2)) w))
          (\<lambda>s. Inr (map (\<lambda>x. flt x (331 / 10)) s)))"

definition crit3 :: "npfloat list \<Rightarrow> npfloat list \<Rightarrow> error + int list" where
  "crit3 v w =
     ebind (np_binop (lift2 (-)) w (map (map_option (\<lambda>x. 50 - (7 / 10) * (x + 5) ^ 2)) v))
       (\<lambda>s. Inr (map (\<lambda>x. flt x 0) s))"

text \<open>
  One of the three guarded assignments (source lines 101--103): the criterion is
  computed only when both arrays are non-empty, and \<^verbatim>\<open>w_l\<close> is read only when
  \<^verbatim>\<open>v\<close> is non-empty.
\<close>

definition gs_guarded ::
  "beam \<Rightarrow> nat \<Rightarrow> (npfloat list \<Rightarrow> npfloat list \<Rightarrow> error + int list)
     \<Rightarrow> (nat \<rightharpoonup> int list) \<Rightarrow> error + (nat \<rightharpoonup> int list)" where
  "gs_guarded b i crit g =
     ebind (getattr b ''v'') (\<lambda>v. ebind (py_len v) (\<lambda>lv.
       if lv > 0 then
         ebind (getattr b ''w_l'') (\<lambda>w. ebind (py_len w) (\<lambda>lw.
           if lw > 0 then
             ebind (as_floats v) (\<lambda>fv. ebind (as_floats w) (\<lambda>fw.
               ebind (crit fv fw) (\<lambda>r. Inr (g(i \<mapsto> r)))))
           else Inr g))
       else Inr g))"

text \<open>The method returns the dictionary it stores in the attribute \<^verbatim>\<open>gsflg\<close>.\<close>

definition gs_estimation :: "beam \<Rightarrow> error + (nat \<rightharpoonup> int list)" where
  "gs_estimation b =
     ebind (gs_guarded b 0 crit0 Map.empty) (\<lambda>g0.
     ebind (gs_guarded b 1 crit1 g0) (\<lambda>g1.
     ebind (gs_guarded b 2 crit2 g1) (\<lambda>g2.
     ebind (getattr b ''w_l'') (\<lambda>w. ebind (as_floats w) (\<lambda>fw.
     ebind (getattr b ''v'') (\<lambda>v. ebind (as_floats v) (\<lambda>fv.
     ebind (crit3 fv fw) (\<lambda>r. Inr (g2(3 \<mapsto> r))))))))))"

subsection \<open>\<^verbatim>\<open>Beam.set_nc\<close>\<close>

text \<open>
  The columnar record set maps a field to an array: one cell per record for a scalar
  field, one row per record for a vector field.  \<^verbatim>\<open>np.array(a)[i,:]\<close> needs a
  two-dimensional array: a non-empty list of rows of one length; a flat list has too few
  dimensions (\<^verbatim>\<open>IndexError\<close>) and rows of different lengths do not form an array
  (\<^verbatim>\<open>ValueError\<close>).  Arrays of three or more dimensions are not modelled.

  \<^verbatim>\<open>np.array\<close> gives all entries of the array one type: an array of integers alone
  keeps them, an array of numbers that holds a float or the missing sentinel NaN turns every
  integer into a float, and an array with any other entry keeps the objects as they are.
  Integers are taken to fit the integer type of the array, and floats are exact.
\<close>

fun is_seq :: "pyval \<Rightarrow> bool" where
  "is_seq (PList xs) = True"
| "is_seq _ = False"

fun seq_items :: "pyval \<Rightarrow> pyval list" where
  "seq_items (PList xs) = xs"
| "seq_items _ = []"

fun is_int :: "pyval \<Rightarrow> bool" where
  "is_int (PInt k) = True"
| "is_int _ = False"

fun is_num :: "pyval \<Rightarrow> bool" where
  "is_num (PInt k) = True"
| "is_num (PFloat r) = True"
| "is_num PNaN = True"
| "is_num _ = False"

fun np_float64 :: "pyval \<Rightarrow> pyval" where
  "np_float64 (PInt k) = PFloat (of_int k)"
| "np_float64 x = x"

definition np_coerce :: "pyval list \<Rightarrow> pyval list \<Rightarrow> pyval list" where
  "np_coerce entries row =
     (if (\<forall>x \<in> set entries. is_num x) \<and> \<not> (\<forall>x \<in> set entries. is_int x)
      then map np_float64 row else row)"

definition np_row :: "pyval \<Rightarrow> int \<Rightarrow> error + pyval list" where
  "np_row a i =
     (case a of
        PList rows \<Rightarrow>
          if rows \<noteq> [] \<and> (\<forall>r \<in> set rows. is_seq r) then
            (if \<forall>r \<in> set rows. py_len r = py_len (hd rows)
             then ebind (py_index a i) (\<lambda>r. ebind (py_iter r) (\<lambda>xs.
                    Inr (np_coerce (concat (map seq_items rows)) xs)))
             else Inl ValueError)
          else if \<forall>r \<in> set rows. \<not> is_seq r then Inl IndexError
          else Inl ValueError
      | _ \<Rightarrow> Inl IndexError)"

text \<open>\<^verbatim>\<open>~np.isnan(row)\<close>, \<^verbatim>\<open>np.argwhere(m)\<close> and \<^verbatim>\<open>row[m]\<close>.\<close>

definition not_nan :: "pyval list \<Rightarrow> error + bool list" where
  "not_nan row = ebind (to_floats row) (\<lambda>fs. Inr (map (\<lambda>x. x \<noteq> None) fs))"

definition argwhere :: "bool list \<Rightarrow> pyval" where
  "argwhere m = PList (map (\<lambda>k. PList [PInt (int k)]) (filter (\<lambda>k. m ! k) [0..<length m]))"

definition np_select :: "bool list \<Rightarrow> pyval list \<Rightarrow> pyval list" where
  "np_select m row = map snd (filter fst (zip m row))"

definition set_nc_scalar :: "pydict \<Rightarrow> int \<Rightarrow> string \<Rightarrow> beam \<Rightarrow> error + beam" where
  "set_nc_scalar d i p b =
     (case d p of
        None \<Rightarrow> Inr (b(p \<mapsto> PNone))
      | Some a \<Rightarrow> ebind (py_index a i) (\<lambda>x. Inr (b(p \<mapsto> x))))"

definition set_nc_vector ::
  "pydict \<Rightarrow> int \<Rightarrow> string list \<Rightarrow> string \<Rightarrow> beam \<Rightarrow> error + beam" where
  "set_nc_vector d i v_params p b =
     (case d p of
        None \<Rightarrow> Inr (b(p \<mapsto> PList []))
      | Some a \<Rightarrow>
          ebind (np_row a i) (\<lambda>row.
          ebind (if ''slist'' \<notin> set v_params \<and> p = ''v''
                 then ebind (not_nan row) (\<lambda>m. Inr (b(p \<mapsto> PList row, ''slist'' \<mapsto> argwhere m)))
                 else Inr (b(p \<mapsto> PList row))) (\<lambda>b1.
          ebind (not_nan row) (\<lambda>m. Inr (b1(p \<mapsto> PList (np_select m row)))))))"

definition Beam_set_nc ::
  "pyval \<Rightarrow> pydict \<Rightarrow> int \<Rightarrow> string list \<Rightarrow> string list \<Rightarrow> error + beam" where
  "Beam_set_nc time d i s_params v_params =
     ebind (efold (set_nc_scalar d i) s_params Map.empty) (\<lambda>b.
     ebind (efold (set_nc_vector d i v_params) v_params b) (\<lambda>b'.
       Inr (b'(''time'' \<mapsto> time))))"




section \<open>Scan\<close>

text \<open>
  A scan holds its beams, the derived time bounds (\<^verbatim>\<open>None\<close> until computed) and the
  derived averages \<^verbatim>\<open>f\<close> and \<^verbatim>\<open>nsky\<close>, attributes that do not exist before
  \<^verbatim>\<open>update_time\<close> has run.
\<close>

record Scan =
  stime :: pyval
  etime :: pyval
  s_mode :: string
  beams :: "beam list"
  f :: "pyval option"
  nsky :: "pyval option"

definition Scan_init :: "pyval \<Rightarrow> pyval \<Rightarrow> string \<Rightarrow> Scan" where
  "Scan_init st et m =
     \<lparr>stime = st, etime = et, s_mode = m, beams = [], f = None, nsky = None\<rparr>"

fun emap :: "('a \<Rightarrow> error + 'b) \<Rightarrow> 'a list \<Rightarrow> error + 'b list" where
  "emap g [] = Inr []"
| "emap g (x # xs) = ebind (g x) (\<lambda>y. ebind (emap g xs) (\<lambda>ys. Inr (y # ys)))"

text \<open>
  \<^verbatim>\<open>x < y\<close>: numbers compare by value and NaN compares false; datetimes compare with
  datetimes; every other pair is a \<^verbatim>\<open>TypeError\<close> (sequences as operands are not
  modelled).
\<close>

fun py_less :: "pyval \<Rightarrow> pyval \<Rightarrow> error + bool" where
  "py_less (PTime s) (PTime t) = Inr (s < t)"
| "py_less (PTime s) _ = Inl TypeError"
| "py_less _ (PTime t) = Inl TypeError"
| "py_less x y =
     ebind (to_float x) (\<lambda>a. ebind (to_float y) (\<lambda>b.
       Inr (case a of None \<Rightarrow> False | Some u \<Rightarrow> (case b of None \<Rightarrow> False | Some v \<Rightarrow> u < v))))"

text \<open>The builtins \<^verbatim>\<open>min\<close> and \<^verbatim>\<open>max\<close>: the first extremal item is kept.\<close>

fun py_min_from :: "pyval \<Rightarrow> pyval list \<Rightarrow> error + pyval" where
  "py_min_from m [] = Inr m"
| "py_min_from m (x # xs) = ebind (py_less x m) (\<lambda>lt. py_min_from (if lt then x else m) xs)"

fun py_max_from :: "pyval \<Rightarrow> pyval list \<Rightarrow> error + pyval" where
  "py_max_from m [] = Inr m"
| "py_max_from m (x # xs) = ebind (py_less m x) (\<lambda>gt. py_max_from (if gt then x else m) xs)"

definition py_min :: "pyval list \<Rightarrow> error + pyval" where
  "py_min xs = (case xs of [] \<Rightarrow> Inl ValueError | x # ys \<Rightarrow> py_min_from x ys)"

definition py_max :: "pyval list \<Rightarrow> error + pyval" where
  "py_max xs = (case xs of [] \<Rightarrow> Inl ValueError | x # ys \<Rightarrow> py_max_from x ys)"

text \<open>
  \<^verbatim>\<open>numpy.mean\<close> of a list of numbers, in exact arithmetic: NaN for the empty list and
  for a list that holds a NaN; a \<^verbatim>\<open>TypeError\<close> for a list that holds anything else.
\<close>

definition np_mean :: "pyval list \<Rightarrow> error + pyval" where
  "np_mean xs =
     ebind (to_floats xs) (\<lambda>fs.
       if fs = [] \<or> None \<in> set fs then Inr PNaN
       else Inr (PFloat (sum_list (map the fs) / of_nat (length fs))))"

definition populate_avg_params :: "Scan \<Rightarrow> error + Scan" where
  "populate_avg_params sc =
     ebind (efold (\<lambda>b (fs, ns).
               ebind (getattr b ''tfreq'') (\<lambda>x.
               ebind (getattr b ''noise.sky'') (\<lambda>y. Inr (fs @ [x], ns @ [y]))))
             (beams sc) ([], []))
       (\<lambda>(fs, ns).
          ebind (np_mean fs) (\<lambda>mf.
          ebind (np_mean ns) (\<lambda>mn. Inr (sc\<lparr>f := Some mf, nsky := Some mn\<rparr>))))"

definition update_time :: "Scan \<Rightarrow> error + Scan" where
  "update_time sc =
     ebind (emap (\<lambda>b. getattr b ''time'') (beams sc)) (\<lambda>ts.
     ebind (py_min ts) (\<lambda>mn.
     ebind (py_max ts) (\<lambda>mx.
       populate_avg_params (sc\<lparr>stime := mn, etime := mx\<rparr>))))"

section \<open>FetchData\<close>

text \<open>
  Of the object's attributes only \<^verbatim>\<open>date_range\<close>, a list of datetimes, decides a
  result; \<^verbatim>\<open>verbose\<close> only switches logging.
\<close>

record FetchData =
  date_range :: "datetime list"
  verbose :: bool

subsection \<open>The constructor \<^verbatim>\<open>datetime.datetime\<close>\<close>

fun as_cint :: "pyval \<Rightarrow> error + int" where
  "as_cint (PInt i) =
     (if - (2 ^ 31) \<le> i \<and> i < 2 ^ 31 then Inr i else Inl OverflowError)"
| "as_cint _ = Inl TypeError"

definition is_leap :: "int \<Rightarrow> bool" where
  "is_leap y = (y mod 4 = 0 \<and> (y mod 100 \<noteq> 0 \<or> y mod 400 = 0))"

definition days_in_month :: "int \<Rightarrow> int \<Rightarrow> int" where
  "days_in_month y m =
     (if m = 2 then (if is_leap y then 29 else 28)
      else if m = 4 \<or> m = 6 \<or> m = 9 \<or> m = 11 then 30 else 31)"

definition mk_datetime ::
  "pyval \<Rightarrow> pyval \<Rightarrow> pyval \<Rightarrow> pyval \<Rightarrow> pyval \<Rightarrow> pyval \<Rightarrow> pyval \<Rightarrow> error + datetime" where
  "mk_datetime yr mo dy hr mt sc us =
     ebind (as_cint yr) (\<lambda>y. ebind (as_cint mo) (\<lambda>m. ebind (as_cint dy) (\<lambda>d.
     ebind (as_cint hr) (\<lambda>h. ebind (as_cint mt) (\<lambda>mi. ebind (as_cint sc) (\<lambda>s.
     ebind (as_cint us) (\<lambda>u.
       if 1 \<le> y \<and> y \<le> 9999 \<and> 1 \<le> m \<and> m \<le> 12 \<and> 1 \<le> d \<and> d \<le> days_in_month y m
          \<and> 0 \<le> h \<and> h \<le> 23 \<and> 0 \<le> mi \<and> mi \<le> 59 \<and> 0 \<le> s \<and> s \<le> 59
          \<and> 0 \<le> u \<and> u \<le> 999999
       then Inr (y, m, d, h, mi, s, u) else Inl ValueError)))))))"

text \<open>Source line 204: the timestamp of a raw record.\<close>

definition record_time :: "pydict \<Rightarrow> error + datetime" where
  "record_time d =
     ebind (getitem d ''time.yr'') (\<lambda>yr. ebind (getitem d ''time.mo'') (\<lambda>mo.
     ebind (getitem d ''time.dy'') (\<lambda>dy. ebind (getitem d ''time.hr'') (\<lambda>hr.
     ebind (getitem d ''time.mt'') (\<lambda>mt. ebind (getitem d ''time.sc'') (\<lambda>sc.
     ebind (getitem d ''time.us'') (\<lambda>us. mk_datetime yr mo dy hr mt sc us)))))))"

definition list_get :: "'a list \<Rightarrow> nat \<Rightarrow> error + 'a" where
  "list_get xs i = (if i < length xs then Inr (xs ! i) else Inl IndexError)"

text \<open>
  Source line 205: \<^verbatim>\<open>time >= date_range[0] and time <= date_range[1]\<close>; the second
  bound is read only when the first comparison holds.
\<close>

definition in_date_range :: "FetchData \<Rightarrow> datetime \<Rightarrow> error + bool" where
  "in_date_range self t =
     ebind (list_get (date_range self) 0) (\<lambda>lo.
       if lo \<le> t then ebind (list_get (date_range self) 1) (\<lambda>hi. Inr (t \<le> hi))
       else Inr False)"

subsection \<open>\<^verbatim>\<open>_parse_data\<close>\<close>

text \<open>The body of the loop over the records (source lines 203--208).\<close>

definition parse_record ::
  "FetchData \<Rightarrow> string list \<Rightarrow> string list \<Rightarrow> pydict \<Rightarrow> beam list \<Rightarrow> error + beam list" where
  "parse_record self s_params v_params d bs =
     ebind (record_time d) (\<lambda>t.
     ebind (in_date_range self t) (\<lambda>inside.
       if inside then
         ebind (Beam_set (PTime t) d s_params v_params None) (\<lambda>bm. Inr (bs @ [bm]))
       else Inr bs))"

text \<open>\<^verbatim>\<open>x == 1\<close> and \<^verbatim>\<open>x != y\<close>: numbers compare by value, NaN equals nothing.\<close>

definition py_eq :: "pyval \<Rightarrow> pyval \<Rightarrow> bool" where
  "py_eq x y =
     (case (to_float x, to_float y) of
        (Inr (Some a), Inr (Some b)) \<Rightarrow> a = b
      | (Inr None, _) \<Rightarrow> False
      | (_, Inr None) \<Rightarrow> False
      | _ \<Rightarrow> x = y)"

text \<open>
  The body of the loop over \<^verbatim>\<open>enumerate(_b[1:])\<close> (source lines 214--220); the state
  is the open scan and the list of closed scans.
\<close>

definition segment_step ::
  "beam list \<Rightarrow> string \<Rightarrow> nat \<times> beam \<Rightarrow> Scan \<times> Scan list \<Rightarrow> error + Scan \<times> Scan list" where
  "segment_step bs mode = (\<lambda>(ix, d) (sc, ss).
     ebind (getattr d ''scan'') (\<lambda>flag.
     ebind (if py_eq flag (PInt 1)
            then ebind (getattr d ''time'') (\<lambda>t.
                 ebind (list_get bs ix) (\<lambda>p.
                 ebind (getattr p ''time'') (\<lambda>tp. Inr (\<not> py_eq t tp))))
            else Inr False) (\<lambda>boundary.
       if boundary then
         ebind (update_time sc) (\<lambda>sc'.
           Inr ((Scan_init PNone PNone mode)\<lparr>beams := [d]\<rparr>, ss @ [sc']))
       else Inr (sc\<lparr>beams := beams sc @ [d]\<rparr>, ss))))"

definition parse_data ::
  "FetchData \<Rightarrow> pydict list \<Rightarrow> string list \<Rightarrow> string list \<Rightarrow> string \<Rightarrow> (string \<rightharpoonup> string)
     \<Rightarrow> error + beam list \<times> Scan list" where
  "parse_data self data s_params v_params by scan_prop =
     ebind (efold (parse_record self s_params v_params) data []) (\<lambda>bs.
       if by = ''scan'' then
         (case scan_prop ''s_mode'' of
            None \<Rightarrow> Inl KeyError
          | Some mode \<Rightarrow>
              ebind (list_get bs 0) (\<lambda>b0.
              ebind (efold (segment_step bs mode) (enumerate 0 (tl bs))
                       ((Scan_init PNone PNone mode)\<lparr>beams := [b0]\<rparr>, []))
                (\<lambda>(sc, ss). Inr (bs, ss @ [sc]))))
       else Inr (bs, []))"

subsection \<open>Tables\<close>

text \<open>
  A data frame is its columns, each a list of cells.  The constructor
  \<^verbatim>\<open>DataFrame.from_records\<close> applied to a dictionary of lists refuses columns of unequal
  length with a \<^verbatim>\<open>ValueError\<close>, and stores each column in one type: a column of
  integers alone is kept; a column of numbers, NaN and \<^verbatim>\<open>None\<close> that does not hold
  \<^verbatim>\<open>None\<close> alone becomes a column of floats, its integers turned into floats and
  \<^verbatim>\<open>None\<close> into NaN; in a column of timestamps a missing cell (NaN or \<^verbatim>\<open>None\<close>)
  becomes the missing timestamp, for which \<open>PNaN\<close> stands here; any other column keeps
  its cells as they are.  A column of timestamps holds and returns \<^verbatim>\<open>pandas\<close>
  timestamps; \<open>PTime\<close> stands for the point in time, as a \<^verbatim>\<open>datetime\<close> and as a
  \<^verbatim>\<open>pandas\<close> timestamp alike.  Integers are taken to fit the integer type of a column.
\<close>

type_synonym frame = "string \<rightharpoonup> pyval list"

definition same_length :: "string list \<Rightarrow> frame \<Rightarrow> bool" where
  "same_length keys cols \<longleftrightarrow>
     (\<forall>p \<in> set keys. \<forall>q \<in> set keys. map_option length (cols p) = map_option length (cols q))"

fun is_time :: "pyval \<Rightarrow> bool" where
  "is_time (PTime t) = True"
| "is_time _ = False"

fun missing_cell :: "pyval \<Rightarrow> pyval" where
  "missing_cell PNone = PNaN"
| "missing_cell x = x"

definition store_col :: "pyval list \<Rightarrow> pyval list" where
  "store_col c =
     (if \<forall>x \<in> set c. is_int x then c
      else if (\<forall>x \<in> set c. is_num x \<or> x = PNone) \<and> (\<exists>x \<in> set c. x \<noteq> PNone)
        then map (\<lambda>x. np_float64 (missing_cell x)) c
      else if (\<forall>x \<in> set c. is_time x \<or> x = PNaN \<or> x = PNone) \<and> (\<exists>x \<in> set c. is_time x)
        then map missing_cell c
      else c)"

definition stored :: "frame \<Rightarrow> frame" where
  "stored cols = (\<lambda>p. map_option store_col (cols p))"

definition from_records :: "string list \<Rightarrow> frame \<Rightarrow> error + frame" where
  "from_records keys cols =
     (if same_length keys cols then Inr (stored cols) else Inl ValueError)"

text \<open>\<^verbatim>\<open>dict(zip(keys, ([] for _ in keys)))\<close>: one empty list per key.\<close>

definition init_cols :: "string list \<Rightarrow> frame" where
  "init_cols keys = (\<lambda>p. if p \<in> set keys then Some [] else None)"

text \<open>\<^verbatim>\<open>_o[p].extend(xs)\<close>.\<close>

definition extend_col :: "string \<Rightarrow> pyval list \<Rightarrow> frame \<Rightarrow> error + frame" where
  "extend_col p xs cols =
     (case cols p of None \<Rightarrow> Inl KeyError | Some c \<Rightarrow> Inr (cols(p \<mapsto> c @ xs)))"

text \<open>The rows one beam adds (source lines 232--236 and 253--257).\<close>

definition flatten_beam :: "string list \<Rightarrow> string list \<Rightarrow> beam \<Rightarrow> frame \<Rightarrow> error + frame" where
  "flatten_beam s_params v_params b cols =
     ebind (getattr b ''slist'') (\<lambda>sl. ebind (py_len sl) (\<lambda>l.
     ebind (efold (\<lambda>p c. ebind (getattr b p) (\<lambda>v. ebind (py_iter v) (\<lambda>xs. extend_col p xs c)))
              v_params cols) (\<lambda>cols1.
       efold (\<lambda>p c. ebind (getattr b p) (\<lambda>v. extend_col p (replicate l v) c))
         s_params cols1)))"

text \<open>Padding with the missing sentinel up to the length of the column \<^verbatim>\<open>slist\<close>.\<close>

definition pad_col :: "nat \<Rightarrow> string \<Rightarrow> frame \<Rightarrow> error + frame" where
  "pad_col L p cols =
     (case cols p of
        None \<Rightarrow> Inl KeyError
      | Some c \<Rightarrow> Inr (if length c < L then cols(p \<mapsto> c @ replicate (L - length c) PNaN)
                       else cols))"

text \<open>The padded form of a column.\<close>

definition padded :: "nat \<Rightarrow> pyval list \<Rightarrow> pyval list" where
  "padded L c = (if length c < L then c @ replicate (L - length c) PNaN else c)"

definition pad_cols :: "string list \<Rightarrow> frame \<Rightarrow> error + frame" where
  "pad_cols keys cols =
     (case cols ''slist'' of
        None \<Rightarrow> Inl KeyError
      | Some sl \<Rightarrow> efold (pad_col (length sl)) keys cols)"

definition flatten_beams :: "beam list \<Rightarrow> string list \<Rightarrow> string list \<Rightarrow> error + frame" where
  "flatten_beams bs s_params v_params =
     efold (flatten_beam s_params v_params) bs (init_cols (s_params @ v_params))"

definition convert_to_pandas :: "beam list \<Rightarrow> string list \<Rightarrow> string list \<Rightarrow> error + frame" where
  "convert_to_pandas bs s_params v_params =
     ebind (flatten_beams bs s_params v_params) (\<lambda>cols.
     ebind (pad_cols (s_params @ v_params) cols) (\<lambda>cols'.
       from_records (s_params @ v_params) cols'))"




text \<open>
  \<^verbatim>\<open>numpy.unique\<close> of a numeric column: the distinct values in ascending order, and NaN
  last when the column holds one.  Ordinal columns are numeric; a column with any other
  cell is a \<^verbatim>\<open>TypeError\<close> here.
\<close>

definition np_unique :: "pyval list \<Rightarrow> error + npfloat list" where
  "np_unique col =
     ebind (to_floats col) (\<lambda>fs.
       Inr (map Some (sort (remdups (map the (filter (\<lambda>x. x \<noteq> None) fs))))
            @ (if None \<in> set fs then [None] else [])))"

fun of_npfloat :: "npfloat \<Rightarrow> pyval" where
  "of_npfloat None = PNaN"
| "of_npfloat (Some r) = PFloat r"

text \<open>\<^verbatim>\<open>df.name\<close>, and \<^verbatim>\<open>df[df.name == x]\<close>: the rows whose cell equals \<^verbatim>\<open>x\<close>.\<close>

definition frame_attr :: "frame \<Rightarrow> string \<Rightarrow> error + pyval list" where
  "frame_attr df p = (case df p of None \<Rightarrow> Inl AttributeError | Some c \<Rightarrow> Inr c)"

definition select_rows :: "bool list \<Rightarrow> frame \<Rightarrow> frame" where
  "select_rows keep df = (\<lambda>p. map_option (\<lambda>c. map snd (filter fst (zip keep c))) (df p))"

definition rows_where :: "frame \<Rightarrow> string \<Rightarrow> npfloat \<Rightarrow> error + frame" where
  "rows_where df p x =
     ebind (frame_attr df p) (\<lambda>c. Inr (select_rows (map (\<lambda>v. py_eq v (of_npfloat x)) c) df))"

text \<open>The body of the loop of \<^verbatim>\<open>pandas_to_beams\<close> (source lines 274--280).\<close>

definition first_cell :: "string \<Rightarrow> pydict \<Rightarrow> error + pydict" where
  "first_cell p d =
     (case d p of
        None \<Rightarrow> Inl KeyError
      | Some v \<Rightarrow> ebind (py_index v 0) (\<lambda>x. Inr (d(p \<mapsto> x))))"

definition group_to_beam ::
  "frame \<Rightarrow> string list \<Rightarrow> string list \<Rightarrow> npfloat \<Rightarrow> error + beam" where
  "group_to_beam df s_params v_params bm =
     ebind (rows_where df ''bmnum'' bm) (\<lambda>grp.
     ebind (efold first_cell s_params (\<lambda>p. map_option PList (grp p))) (\<lambda>d.
     ebind (frame_attr grp ''time'') (\<lambda>ts.
     ebind (py_index (PList ts) 0) (\<lambda>t.
       Beam_set t d s_params v_params None))))"

definition pandas_to_beams :: "frame \<Rightarrow> string list \<Rightarrow> string list \<Rightarrow> error + beam list" where
  "pandas_to_beams df s_params v_params =
     ebind (frame_attr df ''bmnum'') (\<lambda>c.
     ebind (np_unique c) (\<lambda>us.
       emap (group_to_beam df s_params v_params) us))"

text \<open>The loop of \<^verbatim>\<open>pandas_to_scans\<close> (source lines 288--301).\<close>

definition group_to_scan ::
  "frame \<Rightarrow> string \<Rightarrow> string list \<Rightarrow> string list \<Rightarrow> npfloat \<Rightarrow> Scan list \<times> nat
     \<Rightarrow> error + Scan list \<times> nat" where
  "group_to_scan df smode s_params v_params sn = (\<lambda>(scans, bmax).
     ebind (rows_where df ''scnum'' sn) (\<lambda>grp.
     ebind (frame_attr grp ''sbnum'') (\<lambda>c.
     ebind (np_unique c) (\<lambda>us.
     ebind (efold (\<lambda>bn bs.
               ebind (rows_where grp ''sbnum'' bn) (\<lambda>sub.
               ebind (pandas_to_beams sub s_params v_params) (\<lambda>b. Inr (bs @ b))))
             us []) (\<lambda>bs.
     ebind (update_time ((Scan_init PNone PNone smode)\<lparr>beams := bs\<rparr>)) (\<lambda>sc.
       Inr (scans @ [sc], if bmax < length bs then length bs else bmax)))))))"

definition reconstruct_scans ::
  "frame \<Rightarrow> string \<Rightarrow> string list \<Rightarrow> string list \<Rightarrow> error + Scan list \<times> nat" where
  "reconstruct_scans df smode s_params v_params =
     ebind (frame_attr df ''scnum'') (\<lambda>c.
     ebind (np_unique c) (\<lambda>us.
       efold (group_to_scan df smode s_params v_params) us ([], 0)))"

text \<open>The merge of the first two scans (source lines 302--311).\<close>

definition merge_first_scans :: "Scan list \<Rightarrow> error + Scan list" where
  "merge_first_scans scans =
     ebind (list_get scans 0) (\<lambda>s0.
     ebind (list_get scans 1) (\<lambda>s1.
     ebind (list_get scans 2) (\<lambda>s2.
       if length (beams s0) + length (beams s1) = length (beams s2) then
         ebind (update_time ((Scan_init PNone PNone (s_mode s0))\<lparr>beams := beams s0 @ beams s1\<rparr>))
           (\<lambda>sc. Inr (sc # drop 2 scans))
       else Inr scans)))"

definition pandas_to_scans ::
  "frame \<Rightarrow> string \<Rightarrow> string list \<Rightarrow> string list \<Rightarrow> error + Scan list \<times> nat" where
  "pandas_to_scans df smode s_params v_params =
     ebind (reconstruct_scans df smode s_params v_params) (\<lambda>(scans, bmax).
     ebind (merge_first_scans scans) (\<lambda>scans'. Inr (scans', bmax)))"

subsection \<open>Beams in a table\<close>

text \<open>
  The gate count of a beam is the length of its \<^verbatim>\<open>slist\<close>.  \<open>raw_cells\<close> are the cells a
  beam appends to a column when it is flattened, \<open>cells\<close> the cells it owns once the column
  is padded, given that a vector field is either as long as \<^verbatim>\<open>slist\<close> or empty, and
  \<open>read_back\<close> is the beam that these cells are read back to.
\<close>

definition gates :: "beam \<Rightarrow> nat" where
  "gates b = (case b ''slist'' of Some (PList xs) \<Rightarrow> length xs | _ \<Rightarrow> 0)"

definition bmnum_of :: "beam \<Rightarrow> int" where
  "bmnum_of b = (case b ''bmnum'' of Some (PInt k) \<Rightarrow> k | _ \<Rightarrow> 0)"

definition full_field :: "beam \<Rightarrow> string \<Rightarrow> bool" where
  "full_field b p = (case b p of Some (PList xs) \<Rightarrow> length xs = gates b | _ \<Rightarrow> False)"

definition raw_cells :: "string list \<Rightarrow> beam \<Rightarrow> string \<Rightarrow> pyval list" where
  "raw_cells sp b p =
     (if p \<in> set sp then (case b p of Some v \<Rightarrow> replicate (gates b) v | None \<Rightarrow> [])
      else (case b p of Some (PList xs) \<Rightarrow> xs | _ \<Rightarrow> []))"

definition cells :: "string list \<Rightarrow> beam \<Rightarrow> string \<Rightarrow> pyval list" where
  "cells sp b p =
     (if p \<in> set sp then (case b p of Some v \<Rightarrow> replicate (gates b) v | None \<Rightarrow> [])
      else (case b p of
              Some (PList xs) \<Rightarrow> if xs = [] then replicate (gates b) PNaN else xs
            | _ \<Rightarrow> []))"

definition read_back :: "string list \<Rightarrow> string list \<Rightarrow> beam \<Rightarrow> beam" where
  "read_back sp vp b =
     (\<lambda>q. if q \<in> set sp then b q
          else if q \<in> set vp then
            (if b q = Some (PList []) then Some (PList (replicate (gates b) PNaN)) else b q)
          else None)"

text \<open>
  A beam that can be told apart in a table: it has at least one gate, every requested
  scalar field, an integer beam number, and a scan flag that \<^verbatim>\<open>Beam.set\<close> keeps.
\<close>

definition table_beam :: "string list \<Rightarrow> beam \<Rightarrow> bool" where
  "table_beam sp b \<longleftrightarrow>
     0 < gates b \<and> (\<forall>p \<in> set sp. b p \<noteq> None)
     \<and> (case b ''bmnum'' of Some (PInt k) \<Rightarrow> True | _ \<Rightarrow> False)
     \<and> (''scan'' \<in> set sp \<longrightarrow>
          (case b ''scan'' of None \<Rightarrow> True | Some x \<Rightarrow> \<not> py_ne_zero x \<or> x = PInt 1))"

text \<open>
  The fields of a list of beams are uniform when every requested vector field is, in all
  beams, as long as \<^verbatim>\<open>slist\<close>, or is empty in all beams.  A column has one type
  when its cells are integers only, floats and NaN only, timestamps only, or
  \<^verbatim>\<open>None\<close> only; the table stores such a column as it is.
\<close>

definition uniform_fields :: "string list \<Rightarrow> beam list \<Rightarrow> bool" where
  "uniform_fields vp bs \<longleftrightarrow>
     (\<forall>p \<in> set vp. (\<forall>b \<in> set bs. full_field b p) \<or> (\<forall>b \<in> set bs. b p = Some (PList [])))"

fun is_float :: "pyval \<Rightarrow> bool" where
  "is_float (PFloat r) = True"
| "is_float PNaN = True"
| "is_float _ = False"

definition one_type :: "pyval list \<Rightarrow> bool" where
  "one_type c \<longleftrightarrow>
     (\<forall>x \<in> set c. is_int x) \<or> (\<forall>x \<in> set c. is_float x) \<or> (\<forall>x \<in> set c. is_time x)
     \<or> (\<forall>x \<in> set c. x = PNone)"

definition table_column :: "string list \<Rightarrow> beam list \<Rightarrow> string \<Rightarrow> pyval list" where
  "table_column sp bs p = concat (map (\<lambda>b. cells sp b p) bs)"

text \<open>
  A beam that can be flattened: it has every requested scalar field, and every requested
  vector field and \<^verbatim>\<open>slist\<close> as sequences.  \<open>raw_column\<close> is the column that the
  beams of a list append, one after the other.
\<close>

definition has_seq :: "beam \<Rightarrow> string \<Rightarrow> bool" where
  "has_seq b p = (case b p of Some v \<Rightarrow> is_seq v | None \<Rightarrow> False)"

definition vector_beam :: "string list \<Rightarrow> string list \<Rightarrow> beam \<Rightarrow> bool" where
  "vector_beam sp vp b \<longleftrightarrow>
     (\<forall>p \<in> set sp. b p \<noteq> None) \<and> (\<forall>p \<in> set vp. has_seq b p) \<and> has_seq b ''slist''"

definition raw_column :: "string list \<Rightarrow> beam list \<Rightarrow> string \<Rightarrow> pyval list" where
  "raw_column sp bs p = concat (map (\<lambda>b. raw_cells sp b p) bs)"



definition pad_frame :: "string list \<Rightarrow> frame \<Rightarrow> frame" where
  "pad_frame keys cols = (\<lambda>p.
     if p \<in> set keys
     then map_option (padded (case cols ''slist'' of Some sl \<Rightarrow> length sl | None \<Rightarrow> 0)) (cols p)
     else cols p)"


section \<open>Example inputs\<close>

text \<open>
  A raw record of 17 March 2015, 03:mt:00, with a given raw scan flag, and the object of the
  module's \<^verbatim>\<open>__main__\<close> block, whose window is 03:00 to 03:20 of that day.
\<close>

definition example_record :: "int \<Rightarrow> int \<Rightarrow> pydict" where
  "example_record mt flag =
     [''time.yr'' \<mapsto> PInt 2015, ''time.mo'' \<mapsto> PInt 3, ''time.dy'' \<mapsto> PInt 17,
      ''time.hr'' \<mapsto> PInt 3, ''time.mt'' \<mapsto> PInt mt, ''time.sc'' \<mapsto> PInt 0,
      ''time.us'' \<mapsto> PInt 0, ''scan'' \<mapsto> PInt flag, ''bmnum'' \<mapsto> PInt 7,
      ''tfreq'' \<mapsto> PInt 10500, ''noise.sky'' \<mapsto> PFloat 2]"

definition example_self :: FetchData where
  "example_self =
     \<lparr>date_range = [(2015, 3, 17, 3, 0, 0, 0), (2015, 3, 17, 3, 20, 0, 0)], verbose = True\<rparr>"

text \<open>
  A beam with two gates whose velocity array and ground-scatter flags have one entry only,
  and a scan that holds it.
\<close>

definition short_beam :: beam where
  "short_beam =
     [''bmnum'' \<mapsto> PInt 7, ''time'' \<mapsto> PTime (2015, 3, 17, 3, 5, 0, 0),
      ''slist'' \<mapsto> PList [PInt 3, PInt 4], ''v'' \<mapsto> PList [PFloat 10],
      ''gflg'' \<mapsto> PList [PInt 1]]"




text \<open>
  A beam of two gates with a given beam number and minute, whose spectral widths are
  empty.
\<close>

definition round_beam :: "int \<Rightarrow> int \<Rightarrow> beam" where
  "round_beam j n =
     [''bmnum'' \<mapsto> PInt j, ''scan'' \<mapsto> PInt 1, ''time'' \<mapsto> PTime (2015, 3, 17, 3, n, 0, 0),
      ''slist'' \<mapsto> PList [PInt 3, PInt 4], ''v'' \<mapsto> PList [PFloat 10, PFloat 20],
      ''w_l'' \<mapsto> PList []]"

text \<open>
  The default field lists of \<^verbatim>\<open>convert_to_pandas\<close>, \<^verbatim>\<open>pandas_to_beams\<close> and
  \<^verbatim>\<open>pandas_to_scans\<close>.
\<close>

definition pandas_s_params :: "string list" where
  "pandas_s_params = [''bmnum'', ''noise.sky'', ''tfreq'', ''scan'', ''nrang'', ''time'']"

definition pandas_v_params :: "string list" where
  "pandas_v_params = [''v'', ''w_l'', ''gflg'', ''p_l'', ''slist'', ''v_e'', ''phi0'', ''elv'']"

text \<open>
  A scan table with one row per beam: the rows have the given scan ordinals and beam
  ordinals (also used as beam numbers), the minute of the timestamp is the scan ordinal.
  \<open>scan_beam\<close> is the beam and \<open>closed_scan\<close> the finalized scan such a table is read
  back to.
\<close>

definition scan_table :: "int list \<Rightarrow> int list \<Rightarrow> frame" where
  "scan_table scnums sbnums =
     [''scnum'' \<mapsto> map PInt scnums, ''sbnum'' \<mapsto> map PInt sbnums,
      ''bmnum'' \<mapsto> map PInt sbnums,
      ''time'' \<mapsto> map (\<lambda>n. PTime (2015, 3, 17, 3, n, 0, 0)) scnums,
      ''tfreq'' \<mapsto> map (\<lambda>n. PInt 10500) scnums,
      ''noise.sky'' \<mapsto> map (\<lambda>n. PFloat 2) scnums,
      ''scan'' \<mapsto> map (\<lambda>n. PInt 0) scnums,
      ''nrang'' \<mapsto> map (\<lambda>n. PInt 75) scnums,
      ''slist'' \<mapsto> map (\<lambda>n. PInt 0) scnums,
      ''v'' \<mapsto> map (\<lambda>n. PFloat 100) scnums]"

definition scan_beam :: "int \<Rightarrow> int \<Rightarrow> beam" where
  "scan_beam n j =
     [''bmnum'' \<mapsto> PInt j, ''noise.sky'' \<mapsto> PFloat 2, ''tfreq'' \<mapsto> PInt 10500,
      ''scan'' \<mapsto> PInt 0, ''nrang'' \<mapsto> PInt 75,
      ''v'' \<mapsto> PList [PFloat 100], ''w_l'' \<mapsto> PList [], ''gflg'' \<mapsto> PList [],
      ''p_l'' \<mapsto> PList [], ''slist'' \<mapsto> PList [PInt 0], ''v_e'' \<mapsto> PList [],
      ''phi0'' \<mapsto> PList [], ''elv'' \<mapsto> PList [],
      ''time'' \<mapsto> PTime (2015, 3, 17, 3, n, 0, 0)]"

definition closed_scan :: "string \<Rightarrow> int \<Rightarrow> beam list \<Rightarrow> Scan" where
  "closed_scan smode n bs =
     \<lparr>stime = PTime (2015, 3, 17, 3, n, 0, 0), etime = PTime (2015, 3, 17, 3, n, 0, 0),
      s_mode = smode, beams = bs, f = Some (PFloat 10500), nsky = Some (PFloat 2)\<rparr>"

text \<open>
  A columnar record set of two records with rows padded by the missing sentinel, and its
  second record as a record dictionary.  The gate indices of the columnar set are padded
  with NaN, so its array of gate indices is an array of floats, and the record holds the
  gate indices as floats.
\<close>

definition nc_records :: pydict where
  "nc_records =
     [''scan'' \<mapsto> PList [PInt 0, PInt 1], ''bmnum'' \<mapsto> PList [PInt 6, PInt 7],
      ''v'' \<mapsto> PList [PList [PFloat 50, PNaN, PNaN], PList [PFloat 100, PFloat 200, PNaN]],
      ''slist'' \<mapsto> PList [PList [PInt 2, PNaN, PNaN], PList [PInt 3, PInt 4, PNaN]]]"

definition nc_record_1 :: pydict where
  "nc_record_1 =
     [''scan'' \<mapsto> PInt 1, ''bmnum'' \<mapsto> PInt 7,
      ''v'' \<mapsto> PList [PFloat 100, PFloat 200], ''slist'' \<mapsto> PList [PFloat 3, PFloat 4]]"

section \<open>Properties of \<^verbatim>\<open>Beam.set\<close>\<close>

lemma ebind_Inr [simp]: "ebind (Inr x) g = g x"
  by (simp add: ebind_def)

lemma ebind_Inl [simp]: "ebind (Inl e) g = Inl e"
  by (simp add: ebind_def)

lemma ebind_eq_Inr: "ebind m g = Inr y \<longleftrightarrow> (\<exists>x. m = Inr x \<and> g x = Inr y)"
  by (cases m) simp_all

lemma set_scalar_None_total: "\<exists>b'. set_scalar d None p b = Inr b'"
  by (simp add: set_scalar_def split: option.splits)

lemma efold_set_scalar_None_total: "\<exists>b0. efold (set_scalar d None) ps b1 = Inr b0"
proof (induction ps arbitrary: b1)
  case Nil
  show ?case by simp
next
  case (Cons p ps)
  obtain b2 where "set_scalar d None p b1 = Inr b2"
    using set_scalar_None_total by blast
  with Cons.IH [of b2] show ?case by simp
qed

lemma set_scalar_other:
  "set_scalar d k p b = Inr b' \<Longrightarrow> q \<noteq> p \<Longrightarrow> b' q = b q"
  by (auto simp: set_scalar_def ebind_eq_Inr split: option.splits if_splits)

lemma efold_set_scalar_notin:
  "efold (set_scalar d k) ps b = Inr b' \<Longrightarrow> q \<notin> set ps \<Longrightarrow> b' q = b q"
proof (induction ps arbitrary: b)
  case Nil
  then show ?case by simp
next
  case (Cons p ps)
  from Cons.prems(1) obtain b1 where
    s: "set_scalar d k p b = Inr b1" and r: "efold (set_scalar d k) ps b1 = Inr b'"
    by (auto split: sum.splits)
  from Cons.prems(2) have "q \<noteq> p" "q \<notin> set ps" by auto
  with Cons.IH [OF r] set_scalar_other [OF s] show ?case by simp
qed

lemma efold_set_scalar_scan:
  assumes "efold (set_scalar d None) ps b = Inr b'" and "''scan'' \<in> set ps"
    and "d ''scan'' = Some x"
  shows "b' ''scan'' = Some (if py_ne_zero x then PInt 1 else x)"
  using assms
proof (induction ps arbitrary: b)
  case Nil
  then show ?case by simp
next
  case (Cons p ps)
  from Cons.prems(1) obtain b1 where
    s: "set_scalar d None p b = Inr b1" and r: "efold (set_scalar d None) ps b1 = Inr b'"
    by (auto split: sum.splits)
  show ?case
  proof (cases "''scan'' \<in> set ps")
    case True
    from Cons.IH [OF r True Cons.prems(3)] show ?thesis .
  next
    case False
    with Cons.prems(2) have p: "p = ''scan''" by simp
    from s p Cons.prems(3)
    have "b1 ''scan'' = Some (if py_ne_zero x then PInt 1 else x)"
      by (auto simp: set_scalar_def split: if_splits)
    with efold_set_scalar_notin [OF r False] show ?thesis by simp
  qed
qed

lemma set_vector_other: "q \<noteq> p \<Longrightarrow> set_vector d p b q = b q"
  by (simp add: set_vector_def split: option.splits)

lemma fold_set_vector_notin: "q \<notin> set ps \<Longrightarrow> fold (set_vector d) ps b q = b q"
  by (induction ps arbitrary: b) (auto simp: set_vector_other)

text \<open>
  Claim C6.  For a raw record that has the field \<^verbatim>\<open>scan\<close>, requested as a scalar field
  (as in the default lists) and not as a vector field, \<^verbatim>\<open>Beam.set\<close> stores exactly
  \<^verbatim>\<open>1\<close> when the raw integer is nonzero and exactly \<^verbatim>\<open>0\<close> when it is \<^verbatim>\<open>0\<close>; the
  raw values \<^verbatim>\<open>-1, 0, 7\<close> are stored as \<^verbatim>\<open>1, 0, 1\<close>.
\<close>

theorem Beam_set_scan_normalized:
  assumes "d ''scan'' = Some (PInt r)"
    and "''scan'' \<in> set s_params" and "''scan'' \<notin> set v_params"
  shows "\<exists>b. Beam_set time d s_params v_params None = Inr b
            \<and> b ''scan'' = Some (PInt (if r \<noteq> 0 then 1 else 0))"
proof -
  obtain b0 where b0: "efold (set_scalar d None) s_params Map.empty = Inr b0"
    using efold_set_scalar_None_total by blast
  from efold_set_scalar_scan [OF b0 assms(2) assms(1)]
  have "b0 ''scan'' = Some (PInt (if r \<noteq> 0 then 1 else 0))" by simp
  with b0 assms(3) show ?thesis
    by (simp add: Beam_set_def fold_set_vector_notin)
qed

theorem Beam_set_scan_normalized_witness:
  "(\<exists>b. Beam_set (PTime (2015, 3, 17, 3, 0, 0, 0)) [''scan'' \<mapsto> PInt (- 1)]
           set_s_params set_v_params None = Inr b \<and> b ''scan'' = Some (PInt 1))
   \<and> (\<exists>b. Beam_set (PTime (2015, 3, 17, 3, 0, 0, 0)) [''scan'' \<mapsto> PInt 0]
           set_s_params set_v_params None = Inr b \<and> b ''scan'' = Some (PInt 0))
   \<and> (\<exists>b. Beam_set (PTime (2015, 3, 17, 3, 0, 0, 0)) [''scan'' \<mapsto> PInt 7]
           set_s_params set_v_params None = Inr b \<and> b ''scan'' = Some (PInt 1))"
  using Beam_set_scan_normalized [of "[''scan'' \<mapsto> PInt (- 1)]" "- 1" set_s_params set_v_params
      "PTime (2015, 3, 17, 3, 0, 0, 0)"]
    Beam_set_scan_normalized [of "[''scan'' \<mapsto> PInt 0]" 0 set_s_params set_v_params
      "PTime (2015, 3, 17, 3, 0, 0, 0)"]
    Beam_set_scan_normalized [of "[''scan'' \<mapsto> PInt 7]" 7 set_s_params set_v_params
      "PTime (2015, 3, 17, 3, 0, 0, 0)"]
  by (simp add: set_s_params_def set_v_params_def)

text \<open>
  Claim C8.  For a beam whose arrays are \<^verbatim>\<open>v = [0]\<close> and \<^verbatim>\<open>w_l = [0]\<close>,
  \<^verbatim>\<open>gs_estimation\<close> stores the flag \<^verbatim>\<open>[1]\<close> under each of the indices 0, 1, 2, 3;
  for \<^verbatim>\<open>v = [2000]\<close> and \<^verbatim>\<open>w_l = [0]\<close> it stores \<^verbatim>\<open>[0]\<close> under each of them.
\<close>

theorem gs_estimation_extremes:
  assumes "b ''w_l'' = Some (PList [PFloat 0])"
  shows "(b ''v'' = Some (PList [PFloat 0]) \<longrightarrow>
            (\<exists>g. gs_estimation b = Inr g \<and> g 0 = Some [1] \<and> g 1 = Some [1]
                  \<and> g 2 = Some [1] \<and> g 3 = Some [1]))
       \<and> (b ''v'' = Some (PList [PFloat 2000]) \<longrightarrow>
            (\<exists>g. gs_estimation b = Inr g \<and> g 0 = Some [0] \<and> g 1 = Some [0]
                  \<and> g 2 = Some [0] \<and> g 3 = Some [0]))"
  using assms
  by (simp add: gs_estimation_def gs_guarded_def getattr_def crit0_def crit1_def crit2_def
      crit3_def np_binop_def lift2_def flt_def)

theorem gs_estimation_extremes_witness:
  "(\<exists>g. gs_estimation [''v'' \<mapsto> PList [PFloat 0], ''w_l'' \<mapsto> PList [PFloat 0]] = Inr g
        \<and> g 0 = Some [1] \<and> g 1 = Some [1] \<and> g 2 = Some [1] \<and> g 3 = Some [1])
   \<and> (\<exists>g. gs_estimation [''v'' \<mapsto> PList [PFloat 2000], ''w_l'' \<mapsto> PList [PFloat 0]] = Inr g
        \<and> g 0 = Some [0] \<and> g 1 = Some [0] \<and> g 2 = Some [0] \<and> g 3 = Some [0])"
  using gs_estimation_extremes [of "[''v'' \<mapsto> PList [PFloat 0], ''w_l'' \<mapsto> PList [PFloat 0]]"]
    gs_estimation_extremes [of "[''v'' \<mapsto> PList [PFloat 2000], ''w_l'' \<mapsto> PList [PFloat 0]]"]
  by simp

section \<open>Properties of \<^verbatim>\<open>_parse_data\<close>\<close>

lemma Beam_set_None_total: "\<exists>b. Beam_set t d sp vp None = Inr b"
proof -
  obtain b0 where "efold (set_scalar d None) sp Map.empty = Inr b0"
    using efold_set_scalar_None_total by blast
  then show ?thesis by (simp add: Beam_set_def)
qed

lemma in_date_range_pair:
  "date_range self = [lo, hi] \<Longrightarrow> in_date_range self t = Inr (lo \<le> t \<and> t \<le> hi)"
  by (simp add: in_date_range_def list_get_def)

lemma parse_record_loop:
  assumes "list_all2 (\<lambda>d t. record_time d = Inr t) data ts" and "date_range self = [lo, hi]"
  shows "\<exists>bs'. efold (parse_record self sp vp) data bs = Inr (bs @ bs')
           \<and> list_all2 (\<lambda>(t, d) b. Beam_set (PTime t) d sp vp None = Inr b)
                (filter (\<lambda>(t, d). lo \<le> t \<and> t \<le> hi) (zip ts data)) bs'"
  using assms(1)
proof (induction data ts arbitrary: bs rule: list_all2_induct)
  case Nil
  show ?case by simp
next
  case (Cons d data t ts)
  show ?case
  proof (cases "lo \<le> t \<and> t \<le> hi")
    case True
    obtain bm where bm: "Beam_set (PTime t) d sp vp None = Inr bm"
      using Beam_set_None_total by blast
    from Cons.IH [of "bs @ [bm]"] obtain bs' where
      "efold (parse_record self sp vp) data (bs @ [bm]) = Inr ((bs @ [bm]) @ bs')"
      "list_all2 (\<lambda>(t, d) b. Beam_set (PTime t) d sp vp None = Inr b)
                (filter (\<lambda>(t, d). lo \<le> t \<and> t \<le> hi) (zip ts data)) bs'"
      by blast
    moreover from True bm Cons.hyps(1)
    have "parse_record self sp vp d bs = Inr (bs @ [bm])"
      by (simp add: parse_record_def in_date_range_pair [OF assms(2)])
    ultimately show ?thesis using True bm
      by (intro exI [of _ "bm # bs'"]) simp
  next
    case False
    from Cons.IH [of bs] obtain bs' where
      "efold (parse_record self sp vp) data bs = Inr (bs @ bs')"
      "list_all2 (\<lambda>(t, d) b. Beam_set (PTime t) d sp vp None = Inr b)
                (filter (\<lambda>(t, d). lo \<le> t \<and> t \<le> hi) (zip ts data)) bs'"
      by blast
    moreover from False Cons.hyps(1)
    have "parse_record self sp vp d bs = Inr bs"
      by (auto simp add: parse_record_def in_date_range_pair [OF assms(2)])
    ultimately show ?thesis using False
      by (intro exI [of _ bs']) auto
  qed
qed

lemma parse_record_loop_times:
  "efold (parse_record self sp vp) data bs = Inr bs1
     \<Longrightarrow> \<exists>ts. list_all2 (\<lambda>d t. record_time d = Inr t) data ts"
proof (induction data arbitrary: bs)
  case Nil
  show ?case by simp
next
  case (Cons d data)
  from Cons.prems obtain bs2 where
    s: "parse_record self sp vp d bs = Inr bs2" and r: "efold (parse_record self sp vp) data bs2 = Inr bs1"
    by (auto split: sum.splits)
  from s obtain t where t: "record_time d = Inr t"
    by (auto simp: parse_record_def ebind_eq_Inr)
  from Cons.IH [OF r] obtain ts where "list_all2 (\<lambda>d t. record_time d = Inr t) data ts" by blast
  with t have "list_all2 (\<lambda>d t. record_time d = Inr t) (d # data) (t # ts)" by simp
  then show ?case by blast
qed

lemma parse_data_beams:
  "parse_data self data sp vp by scan_prop = Inr (bs, ss)
     \<Longrightarrow> efold (parse_record self sp vp) data [] = Inr bs"
  by (auto simp: parse_data_def ebind_eq_Inr split: if_splits option.splits)

lemma example_record_time:
  "0 \<le> mt \<Longrightarrow> mt \<le> 59 \<Longrightarrow> record_time (example_record mt flag) = Inr (2015, 3, 17, 3, mt, 0, 0)"
  by (simp add: record_time_def example_record_def getitem_def mk_datetime_def
      days_in_month_def is_leap_def)

lemma example_beam:
  "\<exists>b. Beam_set t (example_record mt flag) set_s_params set_v_params None = Inr b
       \<and> b ''time'' = Some t \<and> b ''scan'' = Some (PInt (if flag \<noteq> 0 then 1 else 0))
       \<and> b ''tfreq'' = Some (PInt 10500) \<and> b ''noise.sky'' = Some (PFloat 2)"
  by (simp add: Beam_set_def set_s_params_def set_v_params_def set_scalar_def set_vector_def
      example_record_def)

text \<open>
  Claim C10.  With a two-element date range \<open>[lo, hi]\<close>, \<^verbatim>\<open>_parse_data\<close> builds a beam
  exactly for the records whose assembled timestamp \<open>t\<close> satisfies \<open>lo \<le> t \<le> hi\<close>, in the
  order of the records, and drops the others: when every record has a well-formed
  timestamp and \<^verbatim>\<open>by\<close> is not \<^verbatim>\<open>'scan'\<close> the call returns these beams, and whenever
  the call returns, its beam list is this one.
\<close>

theorem parse_data_window:
  assumes "date_range self = [lo, hi]"
  shows "(list_all2 (\<lambda>d t. record_time d = Inr t) data ts \<and> by \<noteq> ''scan'' \<longrightarrow>
            (\<exists>bs. parse_data self data sp vp by scan_prop = Inr (bs, [])
               \<and> list_all2 (\<lambda>(t, d) b. Beam_set (PTime t) d sp vp None = Inr b)
                    (filter (\<lambda>(t, d). lo \<le> t \<and> t \<le> hi) (zip ts data)) bs))
       \<and> (parse_data self data sp vp by scan_prop = Inr (bs1, ss) \<longrightarrow>
            (\<exists>ts. list_all2 (\<lambda>d t. record_time d = Inr t) data ts
               \<and> list_all2 (\<lambda>(t, d) b. Beam_set (PTime t) d sp vp None = Inr b)
                    (filter (\<lambda>(t, d). lo \<le> t \<and> t \<le> hi) (zip ts data)) bs1))"
proof (intro conjI impI)
  assume a: "list_all2 (\<lambda>d t. record_time d = Inr t) data ts \<and> by \<noteq> ''scan''"
  then have ts: "list_all2 (\<lambda>d t. record_time d = Inr t) data ts" and nscan: "by \<noteq> ''scan''"
    by simp_all
  from parse_record_loop [OF ts assms, of sp vp "[]"] nscan
  show "\<exists>bs. parse_data self data sp vp by scan_prop = Inr (bs, [])
               \<and> list_all2 (\<lambda>(t, d) b. Beam_set (PTime t) d sp vp None = Inr b)
                    (filter (\<lambda>(t, d). lo \<le> t \<and> t \<le> hi) (zip ts data)) bs"
    by (auto simp: parse_data_def)
next
  assume p: "parse_data self data sp vp by scan_prop = Inr (bs1, ss)"
  have e: "efold (parse_record self sp vp) data [] = Inr bs1"
    by (rule parse_data_beams [OF p])
  from parse_record_loop_times [OF e] obtain ts where
    ts: "list_all2 (\<lambda>d t. record_time d = Inr t) data ts" by blast
  from parse_record_loop [OF ts assms, of sp vp "[]"] e ts
  show "\<exists>ts. list_all2 (\<lambda>d t. record_time d = Inr t) data ts
               \<and> list_all2 (\<lambda>(t, d) b. Beam_set (PTime t) d sp vp None = Inr b)
                    (filter (\<lambda>(t, d). lo \<le> t \<and> t \<le> hi) (zip ts data)) bs1"
    by auto
qed

theorem parse_data_window_witness:
  "date_range example_self = [(2015, 3, 17, 3, 0, 0, 0), (2015, 3, 17, 3, 20, 0, 0)]
   \<and> list_all2 (\<lambda>d t. record_time d = Inr t)
        [example_record 5 1, example_record 25 1, example_record 6 0]
        [(2015, 3, 17, 3, 5, 0, 0), (2015, 3, 17, 3, 25, 0, 0), (2015, 3, 17, 3, 6, 0, 0)]
   \<and> ''beam'' \<noteq> ''scan''
   \<and> (\<exists>b1 b2. parse_data example_self
          [example_record 5 1, example_record 25 1, example_record 6 0]
          set_s_params set_v_params ''beam'' Map.empty = Inr ([b1, b2], [])
        \<and> Beam_set (PTime (2015, 3, 17, 3, 5, 0, 0)) (example_record 5 1)
             set_s_params set_v_params None = Inr b1
        \<and> Beam_set (PTime (2015, 3, 17, 3, 6, 0, 0)) (example_record 6 0)
             set_s_params set_v_params None = Inr b2)"
proof -
  have dr: "date_range example_self = [(2015, 3, 17, 3, 0, 0, 0), (2015, 3, 17, 3, 20, 0, 0)]"
    by (simp add: example_self_def)
  have ts: "list_all2 (\<lambda>d t. record_time d = Inr t)
        [example_record 5 1, example_record 25 1, example_record 6 0]
        [(2015, 3, 17, 3, 5, 0, 0), (2015, 3, 17, 3, 25, 0, 0), (2015, 3, 17, 3, 6, 0, 0)]"
    by (simp add: example_record_time)
  from parse_data_window [OF dr, of "[example_record 5 1, example_record 25 1, example_record 6 0]"
      "[(2015, 3, 17, 3, 5, 0, 0), (2015, 3, 17, 3, 25, 0, 0), (2015, 3, 17, 3, 6, 0, 0)]"
      "''beam''" set_s_params set_v_params Map.empty] ts
  obtain bs where bs: "parse_data example_self
          [example_record 5 1, example_record 25 1, example_record 6 0]
          set_s_params set_v_params ''beam'' Map.empty = Inr (bs, [])"
    and l: "list_all2 (\<lambda>(t, d) b. Beam_set (PTime t) d set_s_params set_v_params None = Inr b)
        [((2015, 3, 17, 3, 5, 0, 0), example_record 5 1),
         ((2015, 3, 17, 3, 6, 0, 0), example_record 6 0)] bs"
    by auto
  from l obtain b1 b2 where "bs = [b1, b2]"
    "Beam_set (PTime (2015, 3, 17, 3, 5, 0, 0)) (example_record 5 1)
       set_s_params set_v_params None = Inr b1"
    "Beam_set (PTime (2015, 3, 17, 3, 6, 0, 0)) (example_record 6 0)
       set_s_params set_v_params None = Inr b2"
    by (auto simp: list_all2_Cons1)
  with bs dr ts show ?thesis by auto
qed

text \<open>
  Claim C2, at a failing input.  Two records of the window, both flagged as scan
  boundaries and one minute apart, give two scans.  The first is closed inside the loop
  and has its time bounds and averages; the second, appended after the loop, still has
  the bounds \<^verbatim>\<open>None\<close> and no averages.
\<close>

theorem parse_data_final_scan:
  "\<exists>b1 b2 s1 s2.
     parse_data example_self [example_record 5 1, example_record 6 1]
       set_s_params set_v_params ''scan'' [''s_mode'' \<mapsto> ''normal'']
       = Inr ([b1, b2], [s1, s2])
     \<and> beams s1 = [b1] \<and> stime s1 = PTime (2015, 3, 17, 3, 5, 0, 0)
     \<and> etime s1 = PTime (2015, 3, 17, 3, 5, 0, 0) \<and> f s1 = Some (PFloat 10500)
     \<and> nsky s1 = Some (PFloat 2)
     \<and> beams s2 = [b2] \<and> stime s2 = PNone \<and> etime s2 = PNone \<and> f s2 = None \<and> nsky s2 = None"
proof -
  obtain b1 where b1: "Beam_set (PTime (2015, 3, 17, 3, 5, 0, 0)) (example_record 5 1)
        set_s_params set_v_params None = Inr b1"
    "b1 ''time'' = Some (PTime (2015, 3, 17, 3, 5, 0, 0))" "b1 ''scan'' = Some (PInt 1)"
    "b1 ''tfreq'' = Some (PInt 10500)" "b1 ''noise.sky'' = Some (PFloat 2)"
    using example_beam [of "PTime (2015, 3, 17, 3, 5, 0, 0)" 5 1] by auto
  obtain b2 where b2: "Beam_set (PTime (2015, 3, 17, 3, 6, 0, 0)) (example_record 6 1)
        set_s_params set_v_params None = Inr b2"
    "b2 ''time'' = Some (PTime (2015, 3, 17, 3, 6, 0, 0))" "b2 ''scan'' = Some (PInt 1)"
    using example_beam [of "PTime (2015, 3, 17, 3, 6, 0, 0)" 6 1] by auto
  have bs: "efold (parse_record example_self set_s_params set_v_params)
      [example_record 5 1, example_record 6 1] [] = Inr [b1, b2]"
    by (simp add: parse_record_def example_record_time in_date_range_def list_get_def
        example_self_def b1 b2)
  have u: "update_time ((Scan_init PNone PNone ''normal'')\<lparr>beams := [b1]\<rparr>)
      = Inr \<lparr>stime = PTime (2015, 3, 17, 3, 5, 0, 0), etime = PTime (2015, 3, 17, 3, 5, 0, 0),
            s_mode = ''normal'', beams = [b1], f = Some (PFloat 10500), nsky = Some (PFloat 2)\<rparr>"
    by (simp add: update_time_def Scan_init_def getattr_def b1 py_min_def py_max_def
        populate_avg_params_def np_mean_def)
  have step: "segment_step [b1, b2] ''normal'' (0, b2)
        ((Scan_init PNone PNone ''normal'')\<lparr>beams := [b1]\<rparr>, [])
      = Inr ((Scan_init PNone PNone ''normal'')\<lparr>beams := [b2]\<rparr>,
          [\<lparr>stime = PTime (2015, 3, 17, 3, 5, 0, 0), etime = PTime (2015, 3, 17, 3, 5, 0, 0),
            s_mode = ''normal'', beams = [b1], f = Some (PFloat 10500), nsky = Some (PFloat 2)\<rparr>])"
    by (simp add: segment_step_def getattr_def b1 b2 py_eq_def list_get_def u)
  have "parse_data example_self [example_record 5 1, example_record 6 1]
       set_s_params set_v_params ''scan'' [''s_mode'' \<mapsto> ''normal'']
     = Inr ([b1, b2],
         [\<lparr>stime = PTime (2015, 3, 17, 3, 5, 0, 0), etime = PTime (2015, 3, 17, 3, 5, 0, 0),
            s_mode = ''normal'', beams = [b1], f = Some (PFloat 10500), nsky = Some (PFloat 2)\<rparr>,
          (Scan_init PNone PNone ''normal'')\<lparr>beams := [b2]\<rparr>])"
    unfolding parse_data_def bs
    by (simp add: list_get_def step)
  then show ?thesis by (simp add: Scan_init_def)
qed

text \<open>
  Claim C3 as stated fails: with no beam to segment, the call ends in the
  \<^verbatim>\<open>IndexError\<close> of \<^verbatim>\<open>_b[0]\<close>, not in an error of its own.
\<close>

theorem parse_data_empty_counterexample:
  "\<not> (\<exists>e. e \<noteq> IndexError
         \<and> parse_data example_self [] set_s_params set_v_params ''scan''
              [''s_mode'' \<mapsto> ''normal''] = Inl e)"
  by (simp add: parse_data_def list_get_def)

text \<open>
  Claim C3, amended.  When no record yields a beam and the scan properties name a scan
  mode, segmentation by scan ends in the \<^verbatim>\<open>IndexError\<close> raised by reading the first
  element of the empty beam list.
\<close>

theorem parse_data_empty_IndexError:
  assumes "efold (parse_record self sp vp) data [] = Inr []" and "scan_prop ''s_mode'' = Some m"
  shows "parse_data self data sp vp ''scan'' scan_prop = Inl IndexError"
  using assms by (simp add: parse_data_def list_get_def)

theorem parse_data_empty_IndexError_witness:
  "efold (parse_record example_self set_s_params set_v_params) [example_record 25 1] [] = Inr []
   \<and> [''s_mode'' \<mapsto> ''normal''] ''s_mode'' = Some ''normal''
   \<and> parse_data example_self [example_record 25 1] set_s_params set_v_params ''scan''
        [''s_mode'' \<mapsto> ''normal''] = Inl IndexError"
proof -
  have e: "efold (parse_record example_self set_s_params set_v_params) [example_record 25 1] []
      = Inr []"
    by (simp add: parse_record_def example_record_time in_date_range_def list_get_def
        example_self_def)
  have m: "[''s_mode'' \<mapsto> ''normal''] ''s_mode'' = Some ''normal''" by simp
  from parse_data_empty_IndexError [of example_self set_s_params set_v_params
      "[example_record 25 1]" "[''s_mode'' \<mapsto> ''normal'']" "''normal''"] e m
  show ?thesis by simp
qed

section \<open>Properties of the table conversions\<close>

lemma has_seq_iff: "has_seq b p \<longleftrightarrow> (\<exists>xs. b p = Some (PList xs))"
proof (cases "b p")
  case None
  then show ?thesis by (simp add: has_seq_def)
next
  case (Some v)
  then show ?thesis by (cases v) (simp_all add: has_seq_def)
qed

lemma vector_beam_alt:
  "vector_beam sp vp b \<longleftrightarrow>
     (\<forall>p \<in> set sp. b p \<noteq> None) \<and> (\<forall>p \<in> set vp. \<exists>xs. b p = Some (PList xs))
     \<and> (\<exists>sl. b ''slist'' = Some (PList sl))"
  by (simp add: vector_beam_def has_seq_iff)

lemma efold_cong_on:
  assumes "\<And>x s. x \<in> set xs \<Longrightarrow> g x s = h x s"
  shows "efold g xs s = efold h xs s"
  using assms
proof (induction xs arbitrary: s)
  case Nil
  show ?case by simp
next
  case (Cons x xs)
  have "g x s = h x s" using Cons.prems by simp
  moreover have "efold g xs t = efold h xs t" for t
    using Cons.IH Cons.prems by simp
  ultimately show ?case by (simp split: sum.splits)
qed

lemma padded_idem: "padded L (padded L c) = padded L c"
  by (simp add: padded_def)

lemma extend_col_Some:
  "c p = Some x \<Longrightarrow> extend_col p xs c = Inr (c(p \<mapsto> x @ xs))"
  by (simp add: extend_col_def)

lemma efold_extend_col:
  assumes "distinct ps" and "\<forall>p \<in> set ps. c p \<noteq> None"
  shows "efold (\<lambda>p c. extend_col p (X p) c) ps c
           = Inr (\<lambda>q. if q \<in> set ps then Some (the (c q) @ X q) else c q)"
  using assms
proof (induction ps arbitrary: c)
  case Nil
  show ?case by simp
next
  case (Cons p ps)
  from Cons.prems(2) obtain x where x: "c p = Some x" by auto
  let ?c1 = "c(p \<mapsto> x @ X p)"
  have d: "distinct ps" and np: "p \<notin> set ps" using Cons.prems(1) by simp_all
  have "\<forall>q \<in> set ps. ?c1 q \<noteq> None" using Cons.prems(2) by simp
  from Cons.IH [OF d this]
  have "efold (\<lambda>p c. extend_col p (X p) c) ps ?c1
           = Inr (\<lambda>q. if q \<in> set ps then Some (the (?c1 q) @ X q) else ?c1 q)" .
  moreover have "(\<lambda>q. if q \<in> set ps then Some (the (?c1 q) @ X q) else ?c1 q)
      = (\<lambda>q. if q \<in> set (p # ps) then Some (the (c q) @ X q) else c q)"
    using np x by (auto simp: fun_eq_iff)
  moreover have "extend_col p (X p) c = Inr ?c1" using x by (rule extend_col_Some)
  ultimately show ?case by simp
qed

lemma flatten_beam_cells:
  assumes "distinct (sp @ vp)" and "\<forall>p \<in> set (sp @ vp). c p \<noteq> None"
    and "vector_beam sp vp b"
  shows "flatten_beam sp vp b c
           = Inr (\<lambda>q. if q \<in> set (sp @ vp) then Some (the (c q) @ raw_cells sp b q) else c q)"
proof -
  from assms(3) obtain sl where sl: "b ''slist'' = Some (PList sl)"
    by (auto simp: vector_beam_alt)
  then have g: "gates b = length sl" by (simp add: gates_def)
  from assms(1) have dv: "distinct vp" and ds: "distinct sp"
    and dj: "set sp \<inter> set vp = {}" by auto
  have v: "efold (\<lambda>p c. ebind (getattr b p) (\<lambda>v. ebind (py_iter v) (\<lambda>xs. extend_col p xs c))) vp c
      = efold (\<lambda>p c. extend_col p (raw_cells sp b p) c) vp c"
  proof (rule efold_cong_on)
    fix p t assume p: "p \<in> set vp"
    with assms(3) obtain xs where "b p = Some (PList xs)" by (auto simp: vector_beam_alt)
    moreover from p dj have "p \<notin> set sp" by auto
    ultimately show "ebind (getattr b p) (\<lambda>v. ebind (py_iter v) (\<lambda>xs. extend_col p xs t))
        = extend_col p (raw_cells sp b p) t"
      by (simp add: getattr_def raw_cells_def)
  qed
  let ?c1 = "\<lambda>q. if q \<in> set vp then Some (the (c q) @ raw_cells sp b q) else c q"
  have v': "efold (\<lambda>p c. extend_col p (raw_cells sp b p) c) vp c = Inr ?c1"
    using assms(2) by (intro efold_extend_col [OF dv]) simp
  have s: "efold (\<lambda>p c. ebind (getattr b p) (\<lambda>v. extend_col p (replicate (length sl) v) c)) sp t
      = efold (\<lambda>p c. extend_col p (raw_cells sp b p) c) sp t" for t
  proof (rule efold_cong_on)
    fix p u assume p: "p \<in> set sp"
    with assms(3) obtain v where "b p = Some v" by (auto simp: vector_beam_alt)
    with p g show "ebind (getattr b p) (\<lambda>v. extend_col p (replicate (length sl) v) u)
        = extend_col p (raw_cells sp b p) u"
      by (simp add: getattr_def raw_cells_def)
  qed
  have c1: "\<forall>p \<in> set sp. ?c1 p \<noteq> None" using assms(2) by simp
  have s': "efold (\<lambda>p c. extend_col p (raw_cells sp b p) c) sp ?c1
      = Inr (\<lambda>q. if q \<in> set sp then Some (the (?c1 q) @ raw_cells sp b q) else ?c1 q)"
    by (rule efold_extend_col [OF ds c1])
  have e: "(\<lambda>q. if q \<in> set sp then Some (the (?c1 q) @ raw_cells sp b q) else ?c1 q)
      = (\<lambda>q. if q \<in> set (sp @ vp) then Some (the (c q) @ raw_cells sp b q) else c q)"
    using dj by (auto simp: fun_eq_iff)
  have a: "getattr b ''slist'' = Inr (PList sl)" using sl by (simp add: getattr_def)
  show ?thesis
    unfolding flatten_beam_def
    by (simp add: a v v' s s' e)
qed

lemma efold_flatten_beam:
  assumes "distinct (sp @ vp)" and "\<forall>p \<in> set (sp @ vp). c p \<noteq> None"
    and "\<forall>b \<in> set bs. vector_beam sp vp b"
  shows "efold (flatten_beam sp vp) bs c
           = Inr (\<lambda>q. if q \<in> set (sp @ vp)
                       then Some (the (c q) @ raw_column sp bs q) else c q)"
  using assms(2,3)
proof (induction bs arbitrary: c)
  case Nil
  then show ?case by (auto simp: fun_eq_iff raw_column_def)
next
  case (Cons b bs)
  let ?c1 = "\<lambda>q. if q \<in> set (sp @ vp) then Some (the (c q) @ raw_cells sp b q) else c q"
  from Cons.prems have f: "flatten_beam sp vp b c = Inr ?c1"
    by (intro flatten_beam_cells [OF assms(1)]) simp_all
  have c1: "\<forall>p \<in> set (sp @ vp). ?c1 p \<noteq> None" by simp
  from Cons.prems(2) have bs: "\<forall>b \<in> set bs. vector_beam sp vp b" by simp
  have e: "(\<lambda>q. if q \<in> set (sp @ vp)
                then Some (the (?c1 q) @ raw_column sp bs q) else ?c1 q)
      = (\<lambda>q. if q \<in> set (sp @ vp)
                then Some (the (c q) @ raw_column sp (b # bs) q) else c q)"
    by (auto simp: fun_eq_iff raw_column_def)
  from Cons.IH [OF c1 bs] f e show ?case by simp
qed

lemma flatten_beams_cells:
  assumes "distinct (sp @ vp)" and "\<forall>b \<in> set bs. vector_beam sp vp b"
  shows "flatten_beams bs sp vp
           = Inr (\<lambda>q. if q \<in> set (sp @ vp) then Some (raw_column sp bs q) else None)"
proof -
  have "\<forall>p \<in> set (sp @ vp). init_cols (sp @ vp) p \<noteq> None" by (simp add: init_cols_def)
  from efold_flatten_beam [OF assms(1) this assms(2)]
  show ?thesis by (simp add: flatten_beams_def init_cols_def fun_eq_iff)
qed

lemma efold_pad_col_total:
  assumes "\<forall>p \<in> set keys. c p \<noteq> None"
  shows "efold (pad_col L) keys c
           = Inr (\<lambda>q. if q \<in> set keys then Some (padded L (the (c q))) else c q)"
  using assms
proof (induction keys arbitrary: c)
  case Nil
  show ?case by simp
next
  case (Cons k keys)
  from Cons.prems obtain x where x: "c k = Some x" by auto
  let ?c1 = "c(k \<mapsto> padded L x)"
  have "c(k \<mapsto> x) = c" using x by (rule map_upd_triv)
  with x have p: "pad_col L k c = Inr ?c1" by (simp add: pad_col_def padded_def)
  have "\<forall>p \<in> set keys. ?c1 p \<noteq> None" using Cons.prems by simp
  from Cons.IH [OF this]
  have "efold (pad_col L) keys ?c1
      = Inr (\<lambda>q. if q \<in> set keys then Some (padded L (the (?c1 q))) else ?c1 q)" .
  moreover have "(\<lambda>q. if q \<in> set keys then Some (padded L (the (?c1 q))) else ?c1 q)
      = (\<lambda>q. if q \<in> set (k # keys) then Some (padded L (the (c q))) else c q)"
    using x by (auto simp: fun_eq_iff padded_idem)
  ultimately show ?case using p by simp
qed

lemma length_padded: "length (padded L c) = max L (length c)"
  by (simp add: padded_def)

lemma pad_cols_total:
  assumes "\<forall>p \<in> set keys. c p \<noteq> None" and "''slist'' \<in> set keys"
  shows "pad_cols keys c = Inr (pad_frame keys c)"
proof -
  from assms obtain sl where sl: "c ''slist'' = Some sl" by auto
  have "(\<lambda>q. if q \<in> set keys then Some (padded (length sl) (the (c q))) else c q)
      = pad_frame keys c"
    using assms(1) sl by (auto simp: fun_eq_iff pad_frame_def)
  with efold_pad_col_total [OF assms(1), of "length sl"] sl show ?thesis
    by (simp add: pad_cols_def)
qed

lemma raw_column_slist:
  assumes "''slist'' \<notin> set sp" and "\<forall>b \<in> set bs. vector_beam sp vp b"
  shows "length (raw_column sp bs ''slist'') = sum_list (map gates bs)"
  using assms(2)
proof (induction bs)
  case Nil
  show ?case by (simp add: raw_column_def)
next
  case (Cons b bs)
  from Cons.prems obtain sl where "b ''slist'' = Some (PList sl)" by (auto simp: vector_beam_alt)
  with assms(1) have "length (raw_cells sp b ''slist'') = gates b"
    by (simp add: raw_cells_def gates_def)
  with Cons show ?case by (simp add: raw_column_def)
qed

lemma convert_to_pandas_table:
  assumes "distinct (sp @ vp)" and "''slist'' \<in> set vp"
    and "\<forall>b \<in> set bs. vector_beam sp vp b"
  shows "convert_to_pandas bs sp vp =
           (if \<forall>p \<in> set (sp @ vp).
                 length (raw_column sp bs p) \<le> length (raw_column sp bs ''slist'')
            then Inr (\<lambda>p. if p \<in> set (sp @ vp)
                           then Some (store_col (raw_column sp bs p @
                                  replicate (length (raw_column sp bs ''slist'')
                                             - length (raw_column sp bs p)) PNaN))
                           else None)
            else Inl ValueError)"
proof -
  let ?keys = "sp @ vp"
  let ?L = "length (raw_column sp bs ''slist'')"
  let ?raw = "\<lambda>q. if q \<in> set ?keys then Some (raw_column sp bs q) else None"
  let ?pad = "\<lambda>q. if q \<in> set ?keys then Some (padded ?L (raw_column sp bs q)) else None"
  have k: "''slist'' \<in> set ?keys" using assms(2) by simp
  have fl: "flatten_beams bs sp vp = Inr ?raw"
    by (rule flatten_beams_cells [OF assms(1,3)])
  have "\<forall>p \<in> set ?keys. ?raw p \<noteq> None" by simp
  from pad_cols_total [OF this k] have "pad_cols ?keys ?raw = Inr (pad_frame ?keys ?raw)" .
  moreover have "pad_frame ?keys ?raw = ?pad"
    using k by (auto simp: fun_eq_iff pad_frame_def)
  ultimately have pd: "pad_cols ?keys ?raw = Inr ?pad" by simp
  have sl: "same_length ?keys ?pad \<longleftrightarrow> (\<forall>p \<in> set ?keys. length (raw_column sp bs p) \<le> ?L)"
  proof
    assume s: "same_length ?keys ?pad"
    show "\<forall>p \<in> set ?keys. length (raw_column sp bs p) \<le> ?L"
    proof
      fix p assume p: "p \<in> set ?keys"
      from s p k have "map_option length (?pad p) = map_option length (?pad ''slist'')"
        unfolding same_length_def by blast
      with p k have "max ?L (length (raw_column sp bs p)) = ?L"
        by (simp add: length_padded)
      then show "length (raw_column sp bs p) \<le> ?L" by simp
    qed
  next
    assume a: "\<forall>p \<in> set ?keys. length (raw_column sp bs p) \<le> ?L"
    show "same_length ?keys ?pad"
      unfolding same_length_def
    proof (intro ballI)
      fix p q assume "p \<in> set ?keys" "q \<in> set ?keys"
      with a show "map_option length (?pad p) = map_option length (?pad q)"
        by (simp add: length_padded max_absorb1)
    qed
  qed
  have st: "stored ?pad = (\<lambda>p. if p \<in> set ?keys
                           then Some (store_col (raw_column sp bs p @
                                  replicate (?L - length (raw_column sp bs p)) PNaN))
                           else None)"
    if a: "\<forall>p \<in> set ?keys. length (raw_column sp bs p) \<le> ?L"
  proof (rule ext)
    fix p
    show "stored ?pad p = (if p \<in> set ?keys
                           then Some (store_col (raw_column sp bs p @
                                  replicate (?L - length (raw_column sp bs p)) PNaN))
                           else None)"
    proof (cases "p \<in> set ?keys")
      case True
      with a have "length (raw_column sp bs p) \<le> ?L" by blast
      then have "padded ?L (raw_column sp bs p)
          = raw_column sp bs p @ replicate (?L - length (raw_column sp bs p)) PNaN"
        by (simp add: padded_def)
      with True show ?thesis by (simp add: stored_def)
    next
      case False
      then show ?thesis by (simp add: stored_def)
    qed
  qed
  have "convert_to_pandas bs sp vp = from_records ?keys ?pad"
    unfolding convert_to_pandas_def fl by (simp only: ebind_Inr pd)
  also have "\<dots> = (if \<forall>p \<in> set ?keys. length (raw_column sp bs p) \<le> ?L
                    then Inr (stored ?pad) else Inl ValueError)"
    unfolding from_records_def sl ..
  finally show ?thesis using st by (simp cong: if_cong)
qed














section \<open>The round trip through a table\<close>

lemma store_col_one_type:
  assumes "one_type c"
  shows "store_col c = c"
proof (cases "\<forall>x \<in> set c. is_int x")
  case True
  then show ?thesis by (simp add: store_col_def)
next
  case False
  then obtain y where y: "y \<in> set c" "\<not> is_int y" by blast
  from assms False consider (f) "\<forall>x \<in> set c. is_float x" | (t) "\<forall>x \<in> set c. is_time x"
    | (n) "\<forall>x \<in> set c. x = PNone"
    unfolding one_type_def by blast
  then show ?thesis
  proof cases
    case f
    have a: "\<forall>x \<in> set c. is_num x \<or> x = PNone"
    proof
      fix x assume "x \<in> set c"
      with f have "is_float x" by blast
      then show "is_num x \<or> x = PNone" by (cases x) simp_all
    qed
    from f y have "y \<noteq> PNone" by (cases y) auto
    with y have b: "\<exists>x \<in> set c. x \<noteq> PNone" by blast
    have "map (\<lambda>x. np_float64 (missing_cell x)) c = map (\<lambda>x. x) c"
    proof (rule map_cong [OF refl])
      fix x assume "x \<in> set c"
      with f have "is_float x" by blast
      then show "np_float64 (missing_cell x) = x" by (cases x) simp_all
    qed
    with False a b show ?thesis by (simp add: store_col_def)
  next
    case t
    from t y have yt: "is_time y" by blast
    then have "\<not> (is_num y \<or> y = PNone)" by (cases y) simp_all
    with y have c2: "((\<forall>x \<in> set c. is_num x \<or> x = PNone) \<and> (\<exists>x \<in> set c. x \<noteq> PNone)) = False"
      by blast
    from t y have c3: "((\<forall>x \<in> set c. is_time x \<or> x = PNaN \<or> x = PNone)
        \<and> (\<exists>x \<in> set c. is_time x)) = True"
      by blast
    from False have c1: "(\<forall>x \<in> set c. is_int x) = False" by simp
    have "map missing_cell c = map (\<lambda>x. x) c"
    proof (rule map_cong [OF refl])
      fix x assume "x \<in> set c"
      with t have "is_time x" by blast
      then show "missing_cell x = x" by (cases x) simp_all
    qed
    then show ?thesis unfolding store_col_def c1 c2 c3 by simp
  next
    case n
    then have a: "\<not> (\<exists>x \<in> set c. x \<noteq> PNone)" by blast
    from n have b: "\<not> (\<exists>x \<in> set c. is_time x)" by auto
    from False a b show ?thesis by (simp add: store_col_def)
  qed
qed

lemma table_beam_slist:
  assumes "table_beam sp b"
  shows "\<exists>sl. b ''slist'' = Some (PList sl) \<and> length sl = gates b \<and> sl \<noteq> []"
proof -
  from assms have g: "0 < gates b" by (simp add: table_beam_def)
  then show ?thesis
    by (auto simp: gates_def split: option.splits pyval.splits)
qed

lemma table_vector_beam:
  assumes "\<forall>b \<in> set bs. table_beam sp b" and "uniform_fields vp bs" and "b \<in> set bs"
  shows "vector_beam sp vp b"
proof -
  from assms(1,3) have t: "table_beam sp b" by blast
  have "\<exists>xs. b p = Some (PList xs)" if "p \<in> set vp" for p
  proof -
    from that assms(2,3) have "full_field b p \<or> b p = Some (PList [])"
      by (auto simp: uniform_fields_def)
    then show ?thesis by (auto simp: full_field_def split: option.splits pyval.splits)
  qed
  with t table_beam_slist [OF t] show ?thesis
    by (auto simp: vector_beam_alt table_beam_def)
qed

lemma concat_replicate_sum:
  "concat (map (\<lambda>b. replicate (n b) x) bs) = replicate (sum_list (map n bs)) x"
  by (induction bs) (simp_all add: replicate_add)

lemma length_concat_gates:
  assumes "\<forall>b \<in> set bs. length (S b) = gates b"
  shows "length (concat (map S bs)) = sum_list (map gates bs)"
  using assms by (induction bs) simp_all

lemma cells_length:
  assumes "table_beam sp b" and "p \<in> set sp \<or> full_field b p \<or> b p = Some (PList [])"
  shows "length (cells sp b p) = gates b"
proof (cases "p \<in> set sp")
  case True
  with assms(1) obtain v where "b p = Some v" by (auto simp: table_beam_def)
  with True show ?thesis by (simp add: cells_def)
next
  case False
  with assms(2) have "full_field b p \<or> b p = Some (PList [])" by simp
  with False show ?thesis
    by (auto simp: cells_def full_field_def split: option.splits pyval.splits)
qed

lemma padded_column:
  assumes "\<forall>b \<in> set bs. table_beam sp b"
    and "p \<in> set sp \<or> (\<forall>b \<in> set bs. full_field b p) \<or> (\<forall>b \<in> set bs. b p = Some (PList []))"
  shows "padded (sum_list (map gates bs)) (raw_column sp bs p) = table_column sp bs p"
    and "length (table_column sp bs p) = sum_list (map gates bs)"
proof -
  let ?L = "sum_list (map gates bs)"
  have len: "\<forall>b \<in> set bs. length (cells sp b p) = gates b"
    using assms by (auto intro!: cells_length)
  then show l: "length (table_column sp bs p) = ?L"
    unfolding table_column_def by (rule length_concat_gates)
  show "padded ?L (raw_column sp bs p) = table_column sp bs p"
  proof (cases "p \<notin> set sp \<and> (\<forall>b \<in> set bs. b p = Some (PList []))")
    case True
    then have r: "raw_column sp bs p = []"
      by (auto simp: raw_cells_def raw_column_def)
    from True have "map (\<lambda>b. cells sp b p) bs = map (\<lambda>b. replicate (gates b) PNaN) bs"
      by (auto simp: cells_def)
    then have "table_column sp bs p = replicate ?L PNaN"
      by (simp only: concat_replicate_sum table_column_def)
    moreover have "padded ?L [] = replicate ?L PNaN" by (simp add: padded_def)
    ultimately show ?thesis by (simp only: r)
  next
    case False
    have "raw_cells sp b p = cells sp b p" if b: "b \<in> set bs" for b
    proof (cases "p \<in> set sp")
      case True
      then show ?thesis by (simp add: raw_cells_def cells_def)
    next
      case np: False
      with False assms(2) have "\<forall>b \<in> set bs. full_field b p" by blast
      with b have f: "full_field b p" by blast
      from assms(1) b have "0 < gates b" by (simp add: table_beam_def)
      with f np show ?thesis
        by (auto simp: raw_cells_def cells_def full_field_def split: option.splits pyval.splits)
    qed
    then have "raw_column sp bs p = table_column sp bs p"
      by (simp add: raw_column_def table_column_def cong: map_cong)
    with l show ?thesis by (simp add: padded_def)
  qed
qed

lemma convert_to_pandas_cells:
  assumes "distinct (sp @ vp)" and "''slist'' \<in> set vp"
    and "\<forall>b \<in> set bs. table_beam sp b" and "uniform_fields vp bs"
    and "\<forall>p \<in> set (sp @ vp). one_type (table_column sp bs p)"
  shows "convert_to_pandas bs sp vp
           = Inr (\<lambda>q. if q \<in> set (sp @ vp) then Some (table_column sp bs q) else None)"
proof -
  let ?L = "sum_list (map gates bs)"
  have vb: "\<forall>b \<in> set bs. vector_beam sp vp b"
    using table_vector_beam [OF assms(3,4)] by blast
  from assms(1,2) have ns: "''slist'' \<notin> set sp" by auto
  have L: "length (raw_column sp bs ''slist'') = ?L"
    by (rule raw_column_slist [OF ns vb])
  have ok: "p \<in> set sp \<or> (\<forall>b \<in> set bs. full_field b p) \<or> (\<forall>b \<in> set bs. b p = Some (PList []))"
    if "p \<in> set (sp @ vp)" for p
    using that assms(4) by (auto simp: uniform_fields_def)
  have le: "length (raw_column sp bs p) \<le> ?L"
    and pc: "raw_column sp bs p @ replicate (?L - length (raw_column sp bs p)) PNaN
              = table_column sp bs p"
    if p: "p \<in> set (sp @ vp)" for p
  proof -
    note a = padded_column [OF assms(3) ok [OF p]]
    from a have "length (padded ?L (raw_column sp bs p)) = ?L" by simp
    then show le: "length (raw_column sp bs p) \<le> ?L" by (simp add: length_padded)
    then have "padded ?L (raw_column sp bs p)
        = raw_column sp bs p @ replicate (?L - length (raw_column sp bs p)) PNaN"
      by (simp add: padded_def)
    with a(1) show "raw_column sp bs p @ replicate (?L - length (raw_column sp bs p)) PNaN
              = table_column sp bs p" by simp
  qed
  have "(\<lambda>p. if p \<in> set (sp @ vp)
              then Some (store_col (raw_column sp bs p @
                    replicate (length (raw_column sp bs ''slist'') - length (raw_column sp bs p)) PNaN))
              else None)
      = (\<lambda>q. if q \<in> set (sp @ vp) then Some (table_column sp bs q) else None)"
  proof (rule ext)
    fix q
    show "(if q \<in> set (sp @ vp)
              then Some (store_col (raw_column sp bs q @
                    replicate (length (raw_column sp bs ''slist'') - length (raw_column sp bs q)) PNaN))
              else None)
      = (if q \<in> set (sp @ vp) then Some (table_column sp bs q) else None)"
    proof (cases "q \<in> set (sp @ vp)")
      case True
      with assms(5) have "one_type (table_column sp bs q)" by blast
      then have "store_col (table_column sp bs q) = table_column sp bs q"
        by (rule store_col_one_type)
      with True pc [OF True] show ?thesis by (simp only: L if_True)
    next
      case False
      then show ?thesis by simp
    qed
  qed
  moreover from le L have C: "\<forall>p \<in> set (sp @ vp).
      length (raw_column sp bs p) \<le> length (raw_column sp bs ''slist'')" by simp
  note trans [OF convert_to_pandas_table [OF assms(1,2) vb] if_P [OF C]]
  ultimately show ?thesis by (simp only:)
qed

lemma table_beam_bmnum: "table_beam sp b \<Longrightarrow> b ''bmnum'' = Some (PInt (bmnum_of b))"
  by (auto simp: table_beam_def bmnum_of_def split: option.splits pyval.splits)

lemma to_floats_ints: "to_floats (map PInt ks) = Inr (map (\<lambda>k. Some (of_int k)) ks)"
  by (induction ks) simp_all

lemma np_unique_ints:
  "np_unique (map PInt ks) = Inr (map Some (sort (remdups (map rat_of_int ks))))"
proof -
  have "filter (\<lambda>x. x \<noteq> None) (map (\<lambda>k. Some (rat_of_int k)) ks) = map (\<lambda>k. Some (of_int k)) ks"
    by (induction ks) simp_all
  moreover have "None \<notin> set (map (\<lambda>k. Some (rat_of_int k)) ks)" by auto
  ultimately show ?thesis
    by (simp add: np_unique_def to_floats_ints comp_def)
qed

lemma map_insort_key: "map k (insort_key k x ys) = insort (k x) (map k ys)"
  by (induction ys) simp_all

lemma map_sort_key: "map k (sort_key k xs) = sort (map k xs)"
  by (induction xs) (simp_all add: map_insort_key)

lemma sort_of_int:
  assumes "distinct ks"
  shows "sort (remdups (map rat_of_int ks)) = map of_int (sort ks)"
proof (rule sorted_distinct_set_unique)
  show "sorted (sort (remdups (map rat_of_int ks)))" by simp
  show "distinct (sort (remdups (map rat_of_int ks)))" by simp
  have "sorted (sort ks)" by simp
  then show "sorted (map rat_of_int (sort ks))"
    by (simp only: sorted_map of_int_le_iff)
  show "distinct (map rat_of_int (sort ks))"
    using assms by (simp add: distinct_map inj_on_def)
  show "set (sort (remdups (map rat_of_int ks))) = set (map rat_of_int (sort ks))" by simp
qed

lemma bmnum_values:
  assumes "\<forall>b \<in> set bs. 0 < gates b"
  shows "set (concat (map (\<lambda>b. replicate (gates b) (bmnum_of b)) bs)) = set (map bmnum_of bs)"
  using assms by (induction bs) auto

lemma select_block:
  "length c = n \<Longrightarrow> map snd (filter fst (zip (replicate n t) c)) = (if t then c else [])"
  by (simp add: zip_replicate1 filter_map comp_def)

lemma select_concat:
  assumes "\<forall>b \<in> set bs. length (C b) = n b"
  shows "map snd (filter fst (zip (concat (map (\<lambda>b. replicate (n b) (P b)) bs)) (concat (map C bs))))
           = concat (map C (filter P bs))"
  using assms
proof (induction bs)
  case Nil
  show ?case by simp
next
  case (Cons b bs)
  from Cons.prems have l: "length (C b) = n b" by simp
  then have "length (replicate (n b) (P b)) = length (C b)" by simp
  then have "zip (replicate (n b) (P b) @ concat (map (\<lambda>b. replicate (n b) (P b)) bs))
                 (C b @ concat (map C bs))
      = zip (replicate (n b) (P b)) (C b)
        @ zip (concat (map (\<lambda>b. replicate (n b) (P b)) bs)) (concat (map C bs))"
    by (rule zip_append)
  moreover from Cons have "map snd (filter fst (zip (concat (map (\<lambda>b. replicate (n b) (P b)) bs))
      (concat (map C bs)))) = concat (map C (filter P bs))" by simp
  ultimately show ?case using select_block [OF l, of "P b"] by simp
qed

lemma filter_distinct_key:
  assumes "distinct (map k xs)" and "x \<in> set xs"
  shows "filter (\<lambda>y. k y = k x) xs = [x]"
  using assms
proof (induction xs)
  case Nil
  then show ?case by simp
next
  case (Cons a xs)
  show ?case
  proof (cases "a = x")
    case True
    with Cons.prems(1) have "\<forall>y \<in> set xs. k y \<noteq> k x" by (metis distinct.simps(2) image_eqI list.simps(9) set_map)
    then have "filter (\<lambda>y. k y = k x) xs = []" by (simp add: filter_empty_conv)
    with True show ?thesis by simp
  next
    case False
    with Cons.prems have x: "x \<in> set xs" by simp
    with Cons.prems(1) have "k a \<noteq> k x" by (metis distinct.simps(2) image_eqI list.simps(9) set_map)
    with Cons.IH x Cons.prems(1) show ?thesis by simp
  qed
qed

lemma efold_first_cell:
  assumes "distinct ps" and "\<forall>p \<in> set ps. \<exists>xs. d p = Some (PList (V p # xs))"
  shows "efold first_cell ps d = Inr (\<lambda>q. if q \<in> set ps then Some (V q) else d q)"
  using assms
proof (induction ps arbitrary: d)
  case Nil
  show ?case by simp
next
  case (Cons p ps)
  from Cons.prems(2) obtain xs where x: "d p = Some (PList (V p # xs))" by auto
  let ?d1 = "d(p \<mapsto> V p)"
  from x have f: "first_cell p d = Inr ?d1" by (simp add: first_cell_def)
  from Cons.prems(1) have dp: "distinct ps" and np: "p \<notin> set ps" by simp_all
  from Cons.prems(2) np have "\<forall>q \<in> set ps. \<exists>xs. ?d1 q = Some (PList (V q # xs))" by auto
  from Cons.IH [OF dp this]
  have "efold first_cell ps ?d1 = Inr (\<lambda>q. if q \<in> set ps then Some (V q) else ?d1 q)" .
  moreover have "(\<lambda>q. if q \<in> set ps then Some (V q) else ?d1 q)
      = (\<lambda>q. if q \<in> set (p # ps) then Some (V q) else d q)"
    by (auto simp: fun_eq_iff)
  ultimately show ?case using f by simp
qed

lemma efold_set_scalar_kept:
  assumes "\<forall>p \<in> set ps. d p = Some (V p) \<and> (p = ''scan'' \<longrightarrow> py_ne_zero (V p) \<longrightarrow> V p = PInt 1)"
  shows "efold (set_scalar d None) ps m = Inr (\<lambda>q. if q \<in> set ps then Some (V q) else m q)"
  using assms
proof (induction ps arbitrary: m)
  case Nil
  show ?case by simp
next
  case (Cons p ps)
  from Cons.prems have "set_scalar d None p m = Inr (m(p \<mapsto> V p))"
    by (auto simp: set_scalar_def)
  moreover from Cons.prems have "efold (set_scalar d None) ps (m(p \<mapsto> V p))
      = Inr (\<lambda>q. if q \<in> set ps then Some (V q) else (m(p \<mapsto> V p)) q)"
    by (intro Cons.IH) simp
  moreover have "(\<lambda>q. if q \<in> set ps then Some (V q) else (m(p \<mapsto> V p)) q)
      = (\<lambda>q. if q \<in> set (p # ps) then Some (V q) else m q)"
    by (auto simp: fun_eq_iff)
  ultimately show ?case by simp
qed

lemma fold_set_vector_kept:
  assumes "\<forall>p \<in> set ps. d p = Some (W p)"
  shows "fold (set_vector d) ps m = (\<lambda>q. if q \<in> set ps then Some (W q) else m q)"
  using assms
proof (induction ps arbitrary: m)
  case Nil
  show ?case by simp
next
  case (Cons p ps)
  from Cons.prems have "set_vector d p m = m(p \<mapsto> W p)" by (simp add: set_vector_def)
  moreover from Cons.prems have "fold (set_vector d) ps (m(p \<mapsto> W p))
      = (\<lambda>q. if q \<in> set ps then Some (W q) else (m(p \<mapsto> W p)) q)"
    by (intro Cons.IH) simp
  moreover have "(\<lambda>q. if q \<in> set ps then Some (W q) else (m(p \<mapsto> W p)) q)
      = (\<lambda>q. if q \<in> set (p # ps) then Some (W q) else m q)"
    by (auto simp: fun_eq_iff)
  ultimately show ?case by simp
qed

lemma emap_map:
  assumes "\<forall>y \<in> set ys. g (h y) = Inr (F y)"
  shows "emap g (map h ys) = Inr (map F ys)"
  using assms by (induction ys) simp_all

lemma bmnum_column:
  assumes "''bmnum'' \<in> set sp" and "\<forall>b \<in> set bs. table_beam sp b"
  shows "table_column sp bs ''bmnum''
           = concat (map (\<lambda>b. replicate (gates b) (PInt (bmnum_of b))) bs)"
proof -
  have "cells sp b ''bmnum'' = replicate (gates b) (PInt (bmnum_of b))" if "b \<in> set bs" for b
    using that assms table_beam_bmnum [of sp b] by (simp add: cells_def)
  then show ?thesis by (simp add: table_column_def cong: map_cong)
qed

lemma rows_of_beam:
  assumes "distinct (sp @ vp)" and "''bmnum'' \<in> set sp"
    and "\<forall>b \<in> set bs. table_beam sp b" and "uniform_fields vp bs"
    and "distinct (map bmnum_of bs)" and "b \<in> set bs"
  shows "rows_where (\<lambda>q. if q \<in> set (sp @ vp) then Some (table_column sp bs q) else None)
            ''bmnum'' (Some (of_int (bmnum_of b)))
           = Inr (\<lambda>q. if q \<in> set (sp @ vp) then Some (cells sp b q) else None)"
proof -
  let ?df = "\<lambda>q. if q \<in> set (sp @ vp) then Some (table_column sp bs q) else None"
  let ?keep = "concat (map (\<lambda>c. replicate (gates c) (bmnum_of c = bmnum_of b)) bs)"
  have k: "''bmnum'' \<in> set (sp @ vp)" using assms(2) by simp
  have a: "frame_attr ?df ''bmnum'' = Inr (table_column sp bs ''bmnum'')"
    using k by (simp add: frame_attr_def)
  have "map (\<lambda>v. py_eq v (of_npfloat (Some (of_int (bmnum_of b)))))
          (concat (map (\<lambda>c. replicate (gates c) (PInt (bmnum_of c))) bs)) = ?keep"
    by (simp add: map_concat comp_def py_eq_def)
  then have m: "map (\<lambda>v. py_eq v (of_npfloat (Some (of_int (bmnum_of b)))))
          (table_column sp bs ''bmnum'') = ?keep"
    by (simp only: bmnum_column [OF assms(2,3)])
  have "select_rows ?keep ?df = (\<lambda>q. if q \<in> set (sp @ vp) then Some (cells sp b q) else None)"
  proof (rule ext)
    fix q
    show "select_rows ?keep ?df q = (if q \<in> set (sp @ vp) then Some (cells sp b q) else None)"
    proof (cases "q \<in> set (sp @ vp)")
      case True
      then have ok: "q \<in> set sp \<or> (\<forall>b \<in> set bs. full_field b q)
          \<or> (\<forall>b \<in> set bs. b q = Some (PList []))"
        using assms(4) by (auto simp: uniform_fields_def)
      have len: "\<forall>c \<in> set bs. length (cells sp c q) = gates c"
        using assms(3) ok by (auto intro!: cells_length)
      have "map snd (filter fst (zip ?keep (table_column sp bs q)))
          = concat (map (\<lambda>c. cells sp c q) (filter (\<lambda>c. bmnum_of c = bmnum_of b) bs))"
        unfolding table_column_def by (rule select_concat [OF len])
      also have "\<dots> = cells sp b q"
        by (simp add: filter_distinct_key [OF assms(5,6)])
      finally show ?thesis using True by (simp add: select_rows_def)
    next
      case False
      then show ?thesis by (simp add: select_rows_def)
    qed
  qed
  with a m show ?thesis by (simp add: rows_where_def)
qed

lemma group_to_beam_read_back:
  assumes "distinct (sp @ vp)" and "''bmnum'' \<in> set sp" and "''time'' \<in> set sp"
    and "\<forall>b \<in> set bs. table_beam sp b" and "uniform_fields vp bs"
    and "distinct (map bmnum_of bs)" and "b \<in> set bs"
  shows "group_to_beam (\<lambda>q. if q \<in> set (sp @ vp) then Some (table_column sp bs q) else None)
            sp vp (Some (of_int (bmnum_of b)))
           = Inr (read_back sp vp b)"
proof -
  define grp where "grp = (\<lambda>q. if q \<in> set (sp @ vp) then Some (cells sp b q) else None)"
  from assms(1) have ds: "distinct sp" and dj: "set sp \<inter> set vp = {}" by auto
  from assms(4,7) have tb: "table_beam sp b" by blast
  then have g: "0 < gates b" by (simp add: table_beam_def)
  then obtain n where n: "gates b = Suc n" by (cases "gates b") auto
  have sc: "\<exists>v. b p = Some v" if "p \<in> set sp" for p
    using that tb by (auto simp: table_beam_def)
  have r: "rows_where (\<lambda>q. if q \<in> set (sp @ vp) then Some (table_column sp bs q) else None)
            ''bmnum'' (Some (of_int (bmnum_of b))) = Inr grp"
    unfolding grp_def by (rule rows_of_beam [OF assms(1,2,4,5,6,7)])
  define d1 where
    "d1 = (\<lambda>q. if q \<in> set sp then b q else if q \<in> set vp then Some (PList (cells sp b q)) else None)"
  have "\<forall>p \<in> set sp. \<exists>xs. map_option PList (grp p) = Some (PList (the (b p) # xs))"
  proof
    fix p assume p: "p \<in> set sp"
    from sc [OF p] obtain v where "b p = Some v" by blast
    with p n show "\<exists>xs. map_option PList (grp p) = Some (PList (the (b p) # xs))"
      by (simp add: grp_def cells_def)
  qed
  from efold_first_cell [OF ds, of "\<lambda>p. map_option PList (grp p)" "\<lambda>p. the (b p)", OF this]
  have "efold first_cell sp (\<lambda>p. map_option PList (grp p))
      = Inr (\<lambda>q. if q \<in> set sp then Some (the (b q)) else map_option PList (grp q))" .
  moreover have "(\<lambda>q. if q \<in> set sp then Some (the (b q)) else map_option PList (grp q)) = d1"
  proof (rule ext)
    fix q
    show "(if q \<in> set sp then Some (the (b q)) else map_option PList (grp q)) = d1 q"
      using sc [of q] by (auto simp: d1_def grp_def)
  qed
  ultimately have fc: "efold first_cell sp (\<lambda>p. map_option PList (grp p)) = Inr d1" by simp
  from sc [OF assms(3)] obtain t where t: "b ''time'' = Some t" by blast
  have ta: "frame_attr grp ''time'' = Inr (replicate (Suc n) t)"
    using assms(3) t n by (simp add: frame_attr_def grp_def cells_def)
  have ti: "py_index (PList (replicate (Suc n) t)) 0 = Inr t" by simp
  have "\<forall>p \<in> set sp. d1 p = Some (the (b p))
      \<and> (p = ''scan'' \<longrightarrow> py_ne_zero (the (b p)) \<longrightarrow> the (b p) = PInt 1)"
  proof
    fix p assume p: "p \<in> set sp"
    from sc [OF p] obtain v where v: "b p = Some v" by blast
    with tb p have "p = ''scan'' \<longrightarrow> py_ne_zero v \<longrightarrow> v = PInt 1"
      by (auto simp: table_beam_def)
    moreover from v have "the (b p) = v" by simp
    moreover from v p have "d1 p = Some (the (b p))" by (simp add: d1_def)
    ultimately show "d1 p = Some (the (b p))
      \<and> (p = ''scan'' \<longrightarrow> py_ne_zero (the (b p)) \<longrightarrow> the (b p) = PInt 1)"
      by (simp only:)
  qed
  from efold_set_scalar_kept [of sp d1 "\<lambda>p. the (b p)" Map.empty, OF this]
  have ss: "efold (set_scalar d1 None) sp Map.empty
      = Inr (\<lambda>q. if q \<in> set sp then Some (the (b q)) else None)" by simp
  have "\<forall>p \<in> set vp. d1 p = Some (PList (cells sp b p))"
    using dj by (auto simp: d1_def)
  from fold_set_vector_kept [of vp d1 "\<lambda>p. PList (cells sp b p)", OF this]
  have sv: "fold (set_vector d1) vp m
      = (\<lambda>q. if q \<in> set vp then Some (PList (cells sp b q)) else m q)" for m .
  have e: "((\<lambda>q. if q \<in> set vp then Some (PList (cells sp b q))
                 else if q \<in> set sp then Some (the (b q)) else None)(''time'' \<mapsto> t))
      = read_back sp vp b"
  proof (rule ext)
    fix q
    have v: "Some (PList (cells sp b q))
        = (if b q = Some (PList []) then Some (PList (replicate (gates b) PNaN)) else b q)"
      if q: "q \<in> set vp"
    proof -
      from q dj have nq: "q \<notin> set sp" by auto
      from q assms(5,7) have "full_field b q \<or> b q = Some (PList [])"
        by (auto simp: uniform_fields_def)
      with nq show ?thesis
        by (auto simp: cells_def full_field_def split: option.splits pyval.splits)
    qed
    show "((\<lambda>q. if q \<in> set vp then Some (PList (cells sp b q))
                 else if q \<in> set sp then Some (the (b q)) else None)(''time'' \<mapsto> t)) q
      = read_back sp vp b q"
    proof (cases "q = ''time''")
      case True
      with assms(3) t show ?thesis by (simp add: read_back_def)
    next
      case False
      show ?thesis
      proof (cases "q \<in> set sp")
        case True
        with dj have "q \<notin> set vp" by auto
        with True False sc [OF True] show ?thesis by (auto simp: read_back_def)
      next
        case nsp: False
        show ?thesis
        proof (cases "q \<in> set vp")
          case True
          with v [OF True] nsp False show ?thesis by (simp add: read_back_def)
        next
          case False
          with nsp \<open>q \<noteq> ''time''\<close> show ?thesis by (simp add: read_back_def)
        qed
      qed
    qed
  qed
  have "Beam_set t d1 sp vp None = Inr (read_back sp vp b)"
    unfolding Beam_set_def ss by (simp only: ebind_Inr sv e)
  then show ?thesis
    unfolding group_to_beam_def r by (simp only: ebind_Inr fc ta ti)
qed

lemma unique_bmnums:
  assumes "\<forall>b \<in> set bs. table_beam sp b" and "distinct (map bmnum_of bs)"
  shows "np_unique (concat (map (\<lambda>b. replicate (gates b) (PInt (bmnum_of b))) bs))
           = Inr (map (\<lambda>b. Some (of_int (bmnum_of b))) (sort_key bmnum_of bs))"
proof -
  let ?ks = "concat (map (\<lambda>b. replicate (gates b) (bmnum_of b)) bs)"
  have g: "\<forall>b \<in> set bs. 0 < gates b" using assms(1) by (simp add: table_beam_def)
  have c: "concat (map (\<lambda>b. replicate (gates b) (PInt (bmnum_of b))) bs) = map PInt ?ks"
    by (simp add: map_concat comp_def)
  have "set (map rat_of_int ?ks) = set (map rat_of_int (map bmnum_of bs))"
    using bmnum_values [OF g] by (simp only: set_map)
  then have "sorted_list_of_set (set (map rat_of_int ?ks))
      = sorted_list_of_set (set (map rat_of_int (map bmnum_of bs)))" by simp
  then have "sort (remdups (map rat_of_int ?ks)) = sort (remdups (map rat_of_int (map bmnum_of bs)))"
    by (simp only: sorted_list_of_set_sort_remdups)
  also have "\<dots> = map of_int (sort (map bmnum_of bs))"
    by (rule sort_of_int [OF assms(2)])
  also have "\<dots> = map of_int (map bmnum_of (sort_key bmnum_of bs))"
    by (simp only: map_sort_key)
  finally have "map Some (sort (remdups (map rat_of_int ?ks)))
      = map (\<lambda>b. Some (of_int (bmnum_of b))) (sort_key bmnum_of bs)"
    by (simp add: comp_def)
  then show ?thesis by (simp only: c np_unique_ints)
qed

text \<open>
  Claim C1, amended.  Let the requested fields be distinct, with \<^verbatim>\<open>bmnum\<close> and
  \<^verbatim>\<open>time\<close> among the scalar fields and \<^verbatim>\<open>slist\<close> among the vector fields.  Let every
  beam have at least one gate, every requested scalar field, an integer beam number and a
  scan flag that is zero or the integer \<^verbatim>\<open>1\<close>; let the beam numbers be pairwise distinct,
  every requested vector field be as long as \<^verbatim>\<open>slist\<close> in all beams or empty in all
  beams, and every column hold cells of one type.  Then flattening the beams and reading
  the table back returns, in ascending order of beam number, each beam with its requested
  fields unchanged, except that a vector field that was empty is one missing sentinel per
  gate.
\<close>

theorem pandas_round_trip:
  assumes "distinct (sp @ vp)" and "''slist'' \<in> set vp"
    and "''bmnum'' \<in> set sp" and "''time'' \<in> set sp"
    and "\<forall>b \<in> set bs. table_beam sp b" and "uniform_fields vp bs"
    and "distinct (map bmnum_of bs)"
    and "\<forall>p \<in> set (sp @ vp). one_type (table_column sp bs p)"
  shows "ebind (convert_to_pandas bs sp vp) (\<lambda>df. pandas_to_beams df sp vp)
           = Inr (map (read_back sp vp) (sort_key bmnum_of bs))"
proof -
  define df where
    "df = (\<lambda>q. if q \<in> set (sp @ vp) then Some (table_column sp bs q) else None)"
  have cv: "convert_to_pandas bs sp vp = Inr df"
    unfolding df_def by (rule convert_to_pandas_cells [OF assms(1,2,5,6,8)])
  have a: "frame_attr df ''bmnum''
      = Inr (concat (map (\<lambda>b. replicate (gates b) (PInt (bmnum_of b))) bs))"
    using assms(3) bmnum_column [OF assms(3,5)] by (simp add: frame_attr_def df_def)
  note u = unique_bmnums [OF assms(5,7)]
  have "\<forall>b \<in> set (sort_key bmnum_of bs).
      group_to_beam df sp vp (Some (of_int (bmnum_of b))) = Inr (read_back sp vp b)"
  proof
    fix b assume "b \<in> set (sort_key bmnum_of bs)"
    then have "b \<in> set bs" by simp
    then show "group_to_beam df sp vp (Some (of_int (bmnum_of b))) = Inr (read_back sp vp b)"
      unfolding df_def by (rule group_to_beam_read_back [OF assms(1,3,4,5,6,7)])
  qed
  then have e: "emap (group_to_beam df sp vp)
          (map (\<lambda>b. Some (of_int (bmnum_of b))) (sort_key bmnum_of bs))
      = Inr (map (read_back sp vp) (sort_key bmnum_of bs))"
    by (rule emap_map)
  have "pandas_to_beams df sp vp = Inr (map (read_back sp vp) (sort_key bmnum_of bs))"
    unfolding pandas_to_beams_def by (simp only: a ebind_Inr u e)
  with cv show ?thesis by simp
qed

lemma twin_table:
  "convert_to_pandas [round_beam 7 5, round_beam 7 6] [''bmnum'', ''scan'', ''time'']
       [''slist'', ''v'', ''w_l'']
     = Inr (\<lambda>q. if q \<in> set ([''bmnum'', ''scan'', ''time''] @ [''slist'', ''v'', ''w_l''])
                 then Some (table_column [''bmnum'', ''scan'', ''time'']
                              [round_beam 7 5, round_beam 7 6] q)
                 else None)"
proof (rule convert_to_pandas_cells)
  show "distinct ([''bmnum'', ''scan'', ''time''] @ [''slist'', ''v'', ''w_l''])" by simp
  show "''slist'' \<in> set [''slist'', ''v'', ''w_l'']" by simp
  show "\<forall>b \<in> set [round_beam 7 5, round_beam 7 6]. table_beam [''bmnum'', ''scan'', ''time''] b"
    by (simp add: table_beam_def round_beam_def gates_def)
  show "uniform_fields [''slist'', ''v'', ''w_l''] [round_beam 7 5, round_beam 7 6]"
    by (simp add: uniform_fields_def full_field_def round_beam_def gates_def)
  show "\<forall>p \<in> set ([''bmnum'', ''scan'', ''time''] @ [''slist'', ''v'', ''w_l'']).
      one_type (table_column [''bmnum'', ''scan'', ''time''] [round_beam 7 5, round_beam 7 6] p)"
    by (simp add: one_type_def table_column_def cells_def round_beam_def gates_def)
qed

text \<open>
  Claim C1 as stated fails: the table is read back by beam number.  Two beams with the same
  beam number, of two gates each and one minute apart, come back as one beam of four gates
  with the time of the first.
\<close>

theorem pandas_round_trip_counterexample:
  "ebind (convert_to_pandas [round_beam 7 5, round_beam 7 6] [''bmnum'', ''scan'', ''time'']
            [''slist'', ''v'', ''w_l''])
     (\<lambda>df. pandas_to_beams df [''bmnum'', ''scan'', ''time''] [''slist'', ''v'', ''w_l''])
   = Inr [[''bmnum'' \<mapsto> PInt 7, ''scan'' \<mapsto> PInt 1,
           ''slist'' \<mapsto> PList [PInt 3, PInt 4, PInt 3, PInt 4],
           ''v'' \<mapsto> PList [PFloat 10, PFloat 20, PFloat 10, PFloat 20],
           ''w_l'' \<mapsto> PList [PNaN, PNaN, PNaN, PNaN],
           ''time'' \<mapsto> PTime (2015, 3, 17, 3, 5, 0, 0)]]"
  unfolding twin_table
  by (simp add: pandas_to_beams_def frame_attr_def table_column_def cells_def round_beam_def
      gates_def np_unique_def group_to_beam_def rows_where_def select_rows_def py_eq_def
      first_cell_def Beam_set_def set_scalar_def set_vector_def fun_eq_iff)

theorem pandas_round_trip_witness:
  "distinct ([''bmnum'', ''scan'', ''time''] @ [''slist'', ''v'', ''w_l''])
   \<and> table_beam [''bmnum'', ''scan'', ''time''] (round_beam 8 5)
   \<and> table_beam [''bmnum'', ''scan'', ''time''] (round_beam 7 6)
   \<and> uniform_fields [''slist'', ''v'', ''w_l''] [round_beam 8 5, round_beam 7 6]
   \<and> distinct (map bmnum_of [round_beam 8 5, round_beam 7 6])
   \<and> one_type (table_column [''bmnum'', ''scan'', ''time''] [round_beam 8 5, round_beam 7 6] ''w_l'')
   \<and> ebind (convert_to_pandas [round_beam 8 5, round_beam 7 6] [''bmnum'', ''scan'', ''time'']
            [''slist'', ''v'', ''w_l''])
        (\<lambda>df. pandas_to_beams df [''bmnum'', ''scan'', ''time''] [''slist'', ''v'', ''w_l''])
      = Inr [[''bmnum'' \<mapsto> PInt 7, ''scan'' \<mapsto> PInt 1,
              ''slist'' \<mapsto> PList [PInt 3, PInt 4], ''v'' \<mapsto> PList [PFloat 10, PFloat 20],
              ''w_l'' \<mapsto> PList [PNaN, PNaN], ''time'' \<mapsto> PTime (2015, 3, 17, 3, 6, 0, 0)],
             [''bmnum'' \<mapsto> PInt 8, ''scan'' \<mapsto> PInt 1,
              ''slist'' \<mapsto> PList [PInt 3, PInt 4], ''v'' \<mapsto> PList [PFloat 10, PFloat 20],
              ''w_l'' \<mapsto> PList [PNaN, PNaN], ''time'' \<mapsto> PTime (2015, 3, 17, 3, 5, 0, 0)]]"
proof -
  have d: "distinct ([''bmnum'', ''scan'', ''time''] @ [''slist'', ''v'', ''w_l''])" by simp
  have s: "''slist'' \<in> set [''slist'', ''v'', ''w_l'']" by simp
  have b: "''bmnum'' \<in> set [''bmnum'', ''scan'', ''time'']" by simp
  have t: "''time'' \<in> set [''bmnum'', ''scan'', ''time'']" by simp
  have t1: "table_beam [''bmnum'', ''scan'', ''time''] (round_beam 8 5)"
    by (simp add: table_beam_def round_beam_def gates_def)
  have t2: "table_beam [''bmnum'', ''scan'', ''time''] (round_beam 7 6)"
    by (simp add: table_beam_def round_beam_def gates_def)
  from t1 t2 have tb: "\<forall>b \<in> set [round_beam 8 5, round_beam 7 6].
      table_beam [''bmnum'', ''scan'', ''time''] b" by simp
  have u: "uniform_fields [''slist'', ''v'', ''w_l''] [round_beam 8 5, round_beam 7 6]"
    by (simp add: uniform_fields_def full_field_def round_beam_def gates_def)
  have db: "distinct (map bmnum_of [round_beam 8 5, round_beam 7 6])"
    by (simp add: bmnum_of_def round_beam_def)
  have o: "\<forall>p \<in> set ([''bmnum'', ''scan'', ''time''] @ [''slist'', ''v'', ''w_l'']).
      one_type (table_column [''bmnum'', ''scan'', ''time''] [round_beam 8 5, round_beam 7 6] p)"
    by (simp add: one_type_def table_column_def cells_def round_beam_def gates_def)
  then have o1: "one_type (table_column [''bmnum'', ''scan'', ''time'']
      [round_beam 8 5, round_beam 7 6] ''w_l'')" by simp
  have sk: "sort_key bmnum_of [round_beam 8 5, round_beam 7 6] = [round_beam 7 6, round_beam 8 5]"
    by (simp add: bmnum_of_def round_beam_def)
  have r: "read_back [''bmnum'', ''scan'', ''time''] [''slist'', ''v'', ''w_l''] (round_beam j n)
      = [''bmnum'' \<mapsto> PInt j, ''scan'' \<mapsto> PInt 1,
         ''slist'' \<mapsto> PList [PInt 3, PInt 4], ''v'' \<mapsto> PList [PFloat 10, PFloat 20],
         ''w_l'' \<mapsto> PList [PNaN, PNaN], ''time'' \<mapsto> PTime (2015, 3, 17, 3, n, 0, 0)]" for j n
    by (simp add: read_back_def round_beam_def gates_def fun_eq_iff)
  from pandas_round_trip [OF d s b t tb u db o]
  have "ebind (convert_to_pandas [round_beam 8 5, round_beam 7 6] [''bmnum'', ''scan'', ''time'']
            [''slist'', ''v'', ''w_l''])
        (\<lambda>df. pandas_to_beams df [''bmnum'', ''scan'', ''time''] [''slist'', ''v'', ''w_l''])
      = Inr [[''bmnum'' \<mapsto> PInt 7, ''scan'' \<mapsto> PInt 1,
              ''slist'' \<mapsto> PList [PInt 3, PInt 4], ''v'' \<mapsto> PList [PFloat 10, PFloat 20],
              ''w_l'' \<mapsto> PList [PNaN, PNaN], ''time'' \<mapsto> PTime (2015, 3, 17, 3, 6, 0, 0)],
             [''bmnum'' \<mapsto> PInt 8, ''scan'' \<mapsto> PInt 1,
              ''slist'' \<mapsto> PList [PInt 3, PInt 4], ''v'' \<mapsto> PList [PFloat 10, PFloat 20],
              ''w_l'' \<mapsto> PList [PNaN, PNaN], ''time'' \<mapsto> PTime (2015, 3, 17, 3, 5, 0, 0)]]"
    by (simp only: sk list.map r)
  with d t1 t2 u db o1 show ?thesis by (intro conjI)
qed

text \<open>
  The vector fields have to be uniform: the padding is appended to the column, not to the
  cells of a beam.  When the first of two beams has one velocity for its two gates, it is
  read back with the first velocity of the second beam, and the second beam with a missing
  sentinel in place of its second velocity.
\<close>

lemma pandas_round_trip_shifted:
  "ebind (convert_to_pandas [short_beam, round_beam 8 6] [''bmnum'', ''time''] [''slist'', ''v''])
     (\<lambda>df. pandas_to_beams df [''bmnum'', ''time''] [''slist'', ''v''])
   = Inr [[''bmnum'' \<mapsto> PInt 7, ''slist'' \<mapsto> PList [PInt 3, PInt 4],
           ''v'' \<mapsto> PList [PFloat 10, PFloat 10],
           ''time'' \<mapsto> PTime (2015, 3, 17, 3, 5, 0, 0)],
          [''bmnum'' \<mapsto> PInt 8, ''slist'' \<mapsto> PList [PInt 3, PInt 4],
           ''v'' \<mapsto> PList [PFloat 20, PNaN],
           ''time'' \<mapsto> PTime (2015, 3, 17, 3, 6, 0, 0)]]"
proof -
  have d: "distinct ([''bmnum'', ''time''] @ [''slist'', ''v''])" by simp
  have s: "''slist'' \<in> set [''slist'', ''v'']" by simp
  have b: "\<forall>b \<in> set [short_beam, round_beam 8 6]. vector_beam [''bmnum'', ''time''] [''slist'', ''v''] b"
    by (simp add: vector_beam_def has_seq_def short_beam_def round_beam_def)
  have "convert_to_pandas [short_beam, round_beam 8 6] [''bmnum'', ''time''] [''slist'', ''v'']
      = Inr [''bmnum'' \<mapsto> [PInt 7, PInt 7, PInt 8, PInt 8],
             ''time'' \<mapsto> [PTime (2015, 3, 17, 3, 5, 0, 0), PTime (2015, 3, 17, 3, 5, 0, 0),
                          PTime (2015, 3, 17, 3, 6, 0, 0), PTime (2015, 3, 17, 3, 6, 0, 0)],
             ''slist'' \<mapsto> [PInt 3, PInt 4, PInt 3, PInt 4],
             ''v'' \<mapsto> [PFloat 10, PFloat 10, PFloat 20, PNaN]]"
    unfolding convert_to_pandas_table [OF d s b]
    by (simp add: raw_column_def raw_cells_def short_beam_def round_beam_def gates_def
        store_col_def fun_eq_iff)
  then show ?thesis
    by (simp add: pandas_to_beams_def frame_attr_def np_unique_def group_to_beam_def
        rows_where_def select_rows_def py_eq_def first_cell_def Beam_set_def set_scalar_def
        set_vector_def fun_eq_iff)
qed

section \<open>Properties of \<^verbatim>\<open>pandas_to_scans\<close>\<close>

lemma one_row_beam:
  "pandas_to_beams (scan_table [n] [j]) pandas_s_params pandas_v_params = Inr [scan_beam n j]"
proof -
  have u: "np_unique [PInt j] = Inr [Some (of_int j)]" by (simp add: np_unique_def)
  have r: "rows_where (scan_table [n] [j]) ''bmnum'' (Some (of_int j)) = Inr (scan_table [n] [j])"
    by (simp add: rows_where_def frame_attr_def scan_table_def select_rows_def py_eq_def fun_eq_iff)
  have g: "group_to_beam (scan_table [n] [j]) pandas_s_params pandas_v_params (Some (of_int j))
      = Inr (scan_beam n j)"
    unfolding group_to_beam_def r
    by (simp add: pandas_s_params_def pandas_v_params_def first_cell_def scan_table_def frame_attr_def Beam_set_def
        set_scalar_def set_vector_def scan_beam_def fun_eq_iff)
  have a: "frame_attr (scan_table [n] [j]) ''bmnum'' = Inr [PInt j]"
    by (simp add: frame_attr_def scan_table_def)
  show ?thesis
    unfolding pandas_to_beams_def a by (simp add: u g)
qed

lemma scan_table_attr:
  "frame_attr (scan_table ns js) ''scnum'' = Inr (map PInt ns)"
  "frame_attr (scan_table ns js) ''sbnum'' = Inr (map PInt js)"
  by (simp_all add: frame_attr_def scan_table_def)

lemma scan_table_rows:
  "rows_where (scan_table [0, 1, 2, 2] [0, 0, 0, 1]) ''scnum'' (Some 0) = Inr (scan_table [0] [0])"
  "rows_where (scan_table [0, 1, 2, 2] [0, 0, 0, 1]) ''scnum'' (Some 1) = Inr (scan_table [1] [0])"
  "rows_where (scan_table [0, 1, 2, 2] [0, 0, 0, 1]) ''scnum'' (Some 2)
     = Inr (scan_table [2, 2] [0, 1])"
  "rows_where (scan_table [0, 1] [0, 0]) ''scnum'' (Some 0) = Inr (scan_table [0] [0])"
  "rows_where (scan_table [0, 1] [0, 0]) ''scnum'' (Some 1) = Inr (scan_table [1] [0])"
  "rows_where (scan_table [n] [0]) ''sbnum'' (Some 0) = Inr (scan_table [n] [0])"
  "rows_where (scan_table [2, 2] [0, 1]) ''sbnum'' (Some 0) = Inr (scan_table [2] [0])"
  "rows_where (scan_table [2, 2] [0, 1]) ''sbnum'' (Some 1) = Inr (scan_table [2] [1])"
  by (simp_all add: rows_where_def frame_attr_def scan_table_def select_rows_def py_eq_def
      fun_eq_iff)

lemma scan_unique:
  "np_unique [PInt 0, PInt 1, PInt 2, PInt 2] = Inr [Some 0, Some 1, Some 2]"
  "np_unique [PInt 0, PInt 1] = Inr [Some 0, Some 1]"
  "np_unique [PInt 0] = Inr [Some 0]"
  by (simp_all add: np_unique_def)

lemma scan_beam_attr:
  "getattr (scan_beam n j) ''time'' = Inr (PTime (2015, 3, 17, 3, n, 0, 0))"
  "getattr (scan_beam n j) ''tfreq'' = Inr (PInt 10500)"
  "getattr (scan_beam n j) ''noise.sky'' = Inr (PFloat 2)"
  by (simp_all add: getattr_def scan_beam_def)

lemma update_one:
  "update_time ((Scan_init PNone PNone m)\<lparr>beams := [scan_beam n j]\<rparr>)
     = Inr (closed_scan m n [scan_beam n j])"
  by (simp add: update_time_def Scan_init_def scan_beam_attr py_min_def py_max_def
      populate_avg_params_def np_mean_def closed_scan_def)

lemma update_two:
  "update_time ((Scan_init PNone PNone m)\<lparr>beams := [scan_beam n j, scan_beam n k]\<rparr>)
     = Inr (closed_scan m n [scan_beam n j, scan_beam n k])"
  by (simp add: update_time_def Scan_init_def scan_beam_attr py_min_def py_max_def
      populate_avg_params_def np_mean_def closed_scan_def)

lemma group_one:
  assumes "rows_where df ''scnum'' sn = Inr (scan_table [n] [0])"
  shows "group_to_scan df m pandas_s_params pandas_v_params sn (scans, bmax)
     = Inr (scans @ [closed_scan m n [scan_beam n 0]], if bmax < 1 then 1 else bmax)"
  unfolding group_to_scan_def
  by (simp add: assms scan_table_attr scan_unique scan_table_rows one_row_beam update_one)

lemma group_two:
  assumes "rows_where df ''scnum'' sn = Inr (scan_table [2, 2] [0, 1])"
  shows "group_to_scan df m pandas_s_params pandas_v_params sn (scans, bmax)
     = Inr (scans @ [closed_scan m 2 [scan_beam 2 0, scan_beam 2 1]],
            if bmax < 2 then 2 else bmax)"
  unfolding group_to_scan_def
  by (simp add: assms scan_table_attr scan_unique scan_table_rows one_row_beam update_two)

lemma reconstruct_three:
  "reconstruct_scans (scan_table [0, 1, 2, 2] [0, 0, 0, 1]) m pandas_s_params pandas_v_params
     = Inr ([closed_scan m 0 [scan_beam 0 0], closed_scan m 1 [scan_beam 1 0],
             closed_scan m 2 [scan_beam 2 0, scan_beam 2 1]], 2)"
  unfolding reconstruct_scans_def
  by (simp add: scan_table_attr scan_unique group_one group_two scan_table_rows)

lemma reconstruct_two:
  "reconstruct_scans (scan_table [0, 1] [0, 0]) m pandas_s_params pandas_v_params
     = Inr ([closed_scan m 0 [scan_beam 0 0], closed_scan m 1 [scan_beam 1 0]], 1)"
  unfolding reconstruct_scans_def
  by (simp add: scan_table_attr scan_unique group_one scan_table_rows)

lemma py_min_from_times:
  "py_min_from (PTime m) (map PTime xs) = Inr (PTime (fold min xs m))"
proof (induction xs arbitrary: m)
  case Nil
  show ?case by simp
next
  case (Cons x xs)
  have "(if x < m then PTime x else PTime m) = PTime (min x m)"
    by (metis min.absorb3 min.absorb2 not_less)
  with Cons.IH [of "min x m"] show ?case by simp
qed

lemma py_max_from_times:
  "py_max_from (PTime m) (map PTime xs) = Inr (PTime (fold max xs m))"
proof (induction xs arbitrary: m)
  case Nil
  show ?case by simp
next
  case (Cons x xs)
  have "(if m < x then PTime x else PTime m) = PTime (max x m)"
    by (metis max.absorb3 max.absorb2 not_less)
  with Cons.IH [of "max x m"] show ?case by simp
qed

lemma py_min_times:
  "py_min (map PTime (x # xs)) = Inr (PTime (Min (set (x # xs))))"
  by (simp only: py_min_def list.map list.case py_min_from_times Min.set_eq_fold)

lemma py_max_times:
  "py_max (map PTime (x # xs)) = Inr (PTime (Max (set (x # xs))))"
  by (simp only: py_max_def list.map list.case py_max_from_times Max.set_eq_fold)

lemma populate_avg_params_fields:
  assumes "populate_avg_params sc = Inr sc'"
  shows "beams sc' = beams sc \<and> s_mode sc' = s_mode sc \<and> stime sc' = stime sc
         \<and> etime sc' = etime sc \<and> f sc' \<noteq> None \<and> nsky sc' \<noteq> None"
proof -
  from assms obtain mf mn where "sc' = sc\<lparr>f := Some mf, nsky := Some mn\<rparr>"
    by (auto simp: populate_avg_params_def ebind_eq_Inr split: prod.splits)
  then show ?thesis by simp
qed

lemma update_time_fields:
  assumes "update_time sc = Inr sc'"
  shows "beams sc' = beams sc \<and> s_mode sc' = s_mode sc \<and> f sc' \<noteq> None \<and> nsky sc' \<noteq> None
         \<and> (\<exists>ts. emap (\<lambda>b. getattr b ''time'') (beams sc) = Inr ts
               \<and> py_min ts = Inr (stime sc') \<and> py_max ts = Inr (etime sc'))"
proof -
  from assms obtain ts mn mx where
    ts: "emap (\<lambda>b. getattr b ''time'') (beams sc) = Inr ts"
    and mn: "py_min ts = Inr mn" and mx: "py_max ts = Inr mx"
    and p: "populate_avg_params (sc\<lparr>stime := mn, etime := mx\<rparr>) = Inr sc'"
    unfolding update_time_def ebind_eq_Inr by blast
  from populate_avg_params_fields [OF p] ts mn mx show ?thesis by simp
qed

lemma scan_table_rows3:
  "rows_where (scan_table [0, 1, 2] [0, 0, 0]) ''scnum'' (Some 0) = Inr (scan_table [0] [0])"
  "rows_where (scan_table [0, 1, 2] [0, 0, 0]) ''scnum'' (Some 1) = Inr (scan_table [1] [0])"
  "rows_where (scan_table [0, 1, 2] [0, 0, 0]) ''scnum'' (Some 2) = Inr (scan_table [2] [0])"
  by (simp_all add: rows_where_def frame_attr_def scan_table_def select_rows_def py_eq_def
      fun_eq_iff)

lemma scan_unique3: "np_unique [PInt 0, PInt 1, PInt 2] = Inr [Some 0, Some 1, Some 2]"
  by (simp add: np_unique_def)

lemma reconstruct_three_single:
  "reconstruct_scans (scan_table [0, 1, 2] [0, 0, 0]) m pandas_s_params pandas_v_params
     = Inr ([closed_scan m 0 [scan_beam 0 0], closed_scan m 1 [scan_beam 1 0],
             closed_scan m 2 [scan_beam 2 0]], 1)"
  unfolding reconstruct_scans_def
  by (simp add: scan_table_attr scan_unique3 group_one scan_table_rows3)

lemma update_merged:
  "update_time ((Scan_init PNone PNone m)\<lparr>beams := [scan_beam 0 0, scan_beam 1 0]\<rparr>)
     = Inr \<lparr>stime = PTime (2015, 3, 17, 3, 0, 0, 0), etime = PTime (2015, 3, 17, 3, 1, 0, 0),
            s_mode = m, beams = [scan_beam 0 0, scan_beam 1 0],
            f = Some (PFloat 10500), nsky = Some (PFloat 2)\<rparr>"
  by (simp add: update_time_def Scan_init_def scan_beam_attr py_min_def py_max_def
      populate_avg_params_def np_mean_def)

text \<open>
  Claim C4.  When the reconstruction loop yields at least three scans: if the beam counts
  of the first two scans do not add up to the beam count of the third, the scan list is
  returned unchanged; if they do, the result is the scan built from the concatenated beams
  of the first two scans, finalized by \<^verbatim>\<open>update_time\<close> (so its time bounds are the
  minimum and maximum of the beam times), followed by the scans from the third on.  Only
  the first three beam counts decide.
\<close>

theorem pandas_to_scans_merge:
  assumes "reconstruct_scans df smode sp vp = Inr (scans, bmax)" and "3 \<le> length scans"
  shows "(length (beams (scans ! 0)) + length (beams (scans ! 1)) \<noteq> length (beams (scans ! 2))
            \<longrightarrow> pandas_to_scans df smode sp vp = Inr (scans, bmax))
       \<and> (length (beams (scans ! 0)) + length (beams (scans ! 1)) = length (beams (scans ! 2))
            \<longrightarrow> pandas_to_scans df smode sp vp
                 = ebind (update_time ((Scan_init PNone PNone (s_mode (scans ! 0)))
                            \<lparr>beams := beams (scans ! 0) @ beams (scans ! 1)\<rparr>))
                     (\<lambda>m. Inr (m # drop 2 scans, bmax))
               \<and> (\<forall>r. pandas_to_scans df smode sp vp = Inr r \<longrightarrow>
                     (\<exists>m ts. r = (m # drop 2 scans, bmax)
                        \<and> beams m = beams (scans ! 0) @ beams (scans ! 1)
                        \<and> s_mode m = s_mode (scans ! 0)
                        \<and> emap (\<lambda>b. getattr b ''time'') (beams m) = Inr ts
                        \<and> py_min ts = Inr (stime m) \<and> py_max ts = Inr (etime m))))"
proof -
  let ?merged = "(Scan_init PNone PNone (s_mode (scans ! 0)))
                            \<lparr>beams := beams (scans ! 0) @ beams (scans ! 1)\<rparr>"
  from assms(2) have g: "list_get scans 0 = Inr (scans ! 0)"
    "list_get scans (Suc 0) = Inr (scans ! Suc 0)" "list_get scans 2 = Inr (scans ! 2)"
    by (auto simp: list_get_def)
  have ne: "pandas_to_scans df smode sp vp = Inr (scans, bmax)"
    if "length (beams (scans ! 0)) + length (beams (scans ! 1)) \<noteq> length (beams (scans ! 2))"
    using that by (simp add: pandas_to_scans_def assms(1) merge_first_scans_def g)
  have eq: "pandas_to_scans df smode sp vp
              = ebind (update_time ?merged) (\<lambda>m. Inr (m # drop 2 scans, bmax))"
    if "length (beams (scans ! 0)) + length (beams (scans ! 1)) = length (beams (scans ! 2))"
    using that
    by (cases "update_time ?merged") (simp_all add: pandas_to_scans_def assms(1) merge_first_scans_def g)
  have res: "\<exists>m ts. r = (m # drop 2 scans, bmax)
                        \<and> beams m = beams (scans ! 0) @ beams (scans ! 1)
                        \<and> s_mode m = s_mode (scans ! 0)
                        \<and> emap (\<lambda>b. getattr b ''time'') (beams m) = Inr ts
                        \<and> py_min ts = Inr (stime m) \<and> py_max ts = Inr (etime m)"
    if c: "length (beams (scans ! 0)) + length (beams (scans ! 1)) = length (beams (scans ! 2))"
      and r: "pandas_to_scans df smode sp vp = Inr r" for r
  proof -
    from r eq [OF c] have "ebind (update_time ?merged) (\<lambda>m. Inr (m # drop 2 scans, bmax)) = Inr r"
      by simp
    then obtain m where m: "update_time ?merged = Inr m"
      and rm: "r = (m # drop 2 scans, bmax)"
      by (cases "update_time ?merged") auto
    from update_time_fields [OF m] rm show ?thesis by (auto simp: Scan_init_def)
  qed
  from ne eq res show ?thesis by blast
qed

theorem pandas_to_scans_merge_witness:
  "(\<exists>scans bmax m.
      reconstruct_scans (scan_table [0, 1, 2, 2] [0, 0, 0, 1]) ''normal''
        pandas_s_params pandas_v_params = Inr (scans, bmax)
      \<and> 3 \<le> length scans
      \<and> length (beams (scans ! 0)) + length (beams (scans ! 1)) = length (beams (scans ! 2))
      \<and> pandas_to_scans (scan_table [0, 1, 2, 2] [0, 0, 0, 1]) ''normal''
           pandas_s_params pandas_v_params = Inr ([m, scans ! 2], bmax)
      \<and> beams m = beams (scans ! 0) @ beams (scans ! 1)
      \<and> stime m = PTime (2015, 3, 17, 3, 0, 0, 0) \<and> etime m = PTime (2015, 3, 17, 3, 1, 0, 0))
   \<and> (\<exists>scans bmax.
      reconstruct_scans (scan_table [0, 1, 2] [0, 0, 0]) ''normal''
        pandas_s_params pandas_v_params = Inr (scans, bmax)
      \<and> 3 \<le> length scans
      \<and> length (beams (scans ! 0)) + length (beams (scans ! 1)) \<noteq> length (beams (scans ! 2))
      \<and> pandas_to_scans (scan_table [0, 1, 2] [0, 0, 0]) ''normal''
           pandas_s_params pandas_v_params = Inr (scans, bmax))"
proof (intro conjI)
  let ?scans = "[closed_scan ''normal'' 0 [scan_beam 0 0], closed_scan ''normal'' 1 [scan_beam 1 0],
             closed_scan ''normal'' 2 [scan_beam 2 0, scan_beam 2 1]]"
  have l: "3 \<le> length ?scans" by simp
  have c: "length (beams (?scans ! 0)) + length (beams (?scans ! 1)) = length (beams (?scans ! 2))"
    by (simp add: closed_scan_def)
  from pandas_to_scans_merge [OF reconstruct_three l] c
  have "pandas_to_scans (scan_table [0, 1, 2, 2] [0, 0, 0, 1]) ''normal''
           pandas_s_params pandas_v_params
        = ebind (update_time ((Scan_init PNone PNone (s_mode (?scans ! 0)))
                            \<lparr>beams := beams (?scans ! 0) @ beams (?scans ! 1)\<rparr>))
                     (\<lambda>m. Inr (m # drop 2 ?scans, 2))"
    by blast
  then have "pandas_to_scans (scan_table [0, 1, 2, 2] [0, 0, 0, 1]) ''normal''
           pandas_s_params pandas_v_params
        = Inr ([\<lparr>stime = PTime (2015, 3, 17, 3, 0, 0, 0), etime = PTime (2015, 3, 17, 3, 1, 0, 0),
            s_mode = ''normal'', beams = [scan_beam 0 0, scan_beam 1 0],
            f = Some (PFloat 10500), nsky = Some (PFloat 2)\<rparr>, ?scans ! 2], 2)"
    by (simp add: closed_scan_def update_merged)
  with reconstruct_three [of "''normal''"] l c
  show "\<exists>scans bmax m.
      reconstruct_scans (scan_table [0, 1, 2, 2] [0, 0, 0, 1]) ''normal''
        pandas_s_params pandas_v_params = Inr (scans, bmax)
      \<and> 3 \<le> length scans
      \<and> length (beams (scans ! 0)) + length (beams (scans ! 1)) = length (beams (scans ! 2))
      \<and> pandas_to_scans (scan_table [0, 1, 2, 2] [0, 0, 0, 1]) ''normal''
           pandas_s_params pandas_v_params = Inr ([m, scans ! 2], bmax)
      \<and> beams m = beams (scans ! 0) @ beams (scans ! 1)
      \<and> stime m = PTime (2015, 3, 17, 3, 0, 0, 0) \<and> etime m = PTime (2015, 3, 17, 3, 1, 0, 0)"
    by (intro exI [of _ ?scans] exI [of _ 2]
        exI [of _ "\<lparr>stime = PTime (2015, 3, 17, 3, 0, 0, 0), etime = PTime (2015, 3, 17, 3, 1, 0, 0),
            s_mode = ''normal'', beams = [scan_beam 0 0, scan_beam 1 0],
            f = Some (PFloat 10500), nsky = Some (PFloat 2)\<rparr>"])
       (simp add: closed_scan_def)
next
  let ?scans = "[closed_scan ''normal'' 0 [scan_beam 0 0], closed_scan ''normal'' 1 [scan_beam 1 0],
             closed_scan ''normal'' 2 [scan_beam 2 0]]"
  have l: "3 \<le> length ?scans" by simp
  have c: "length (beams (?scans ! 0)) + length (beams (?scans ! 1)) \<noteq> length (beams (?scans ! 2))"
    by (simp add: closed_scan_def)
  from pandas_to_scans_merge [OF reconstruct_three_single l] c
  have "pandas_to_scans (scan_table [0, 1, 2] [0, 0, 0]) ''normal''
           pandas_s_params pandas_v_params = Inr (?scans, 1)"
    by blast
  with reconstruct_three_single [of "''normal''"] l c
  show "\<exists>scans bmax.
      reconstruct_scans (scan_table [0, 1, 2] [0, 0, 0]) ''normal''
        pandas_s_params pandas_v_params = Inr (scans, bmax)
      \<and> 3 \<le> length scans
      \<and> length (beams (scans ! 0)) + length (beams (scans ! 1)) \<noteq> length (beams (scans ! 2))
      \<and> pandas_to_scans (scan_table [0, 1, 2] [0, 0, 0]) ''normal''
           pandas_s_params pandas_v_params = Inr (scans, bmax)"
    by blast
qed


text \<open>
  Claim C5, at a failing input.  A table with two scans of one beam each is reconstructed
  into two scans, and then the merge step reads the third element of the two-element
  list: the call ends in an \<^verbatim>\<open>IndexError\<close> instead of returning the two scans.
\<close>

theorem pandas_to_scans_two_scans:
  "reconstruct_scans (scan_table [0, 1] [0, 0]) ''normal'' pandas_s_params pandas_v_params
     = Inr ([closed_scan ''normal'' 0 [scan_beam 0 0], closed_scan ''normal'' 1 [scan_beam 1 0]], 1)
   \<and> pandas_to_scans (scan_table [0, 1] [0, 0]) ''normal'' pandas_s_params pandas_v_params
     = Inl IndexError"
  by (simp add: pandas_to_scans_def reconstruct_two merge_first_scans_def list_get_def)

section \<open>The two construction paths of a beam\<close>






text \<open>
  The columnar path alone derives a gate-index list: with \<^verbatim>\<open>v\<close> requested and
  \<^verbatim>\<open>slist\<close> not, \<^verbatim>\<open>set_nc\<close> stores the positions of the entries of \<^verbatim>\<open>v\<close> that are
  not missing, and \<^verbatim>\<open>set\<close> stores no \<^verbatim>\<open>slist\<close> at all.
\<close>

lemma set_nc_derived_slist:
  "ebind (Beam_set_nc t nc_records 1 [] [''v'']) (\<lambda>b. getattr b ''slist'')
     = Inr (PList [PList [PInt 0], PList [PInt 1]])
   \<and> ebind (Beam_set t nc_record_1 [] [''v''] None) (\<lambda>b. getattr b ''slist'')
     = Inl AttributeError"
  by (simp add: Beam_set_def Beam_set_nc_def set_vector_def set_nc_vector_def nc_records_def
      nc_record_1_def np_row_def np_coerce_def not_nan_def argwhere_def getattr_def
      upt_conv_Cons)




end
